theory Spec2Isabelle
  imports Complex_Main
begin

section \<open>Detection of broken MCMC samplers: the MH / 1D Gaussian notebook\<close>

text \<open>
  The notebook \<^verbatim>\<open>broken_MCMC_MH_1DGaussian.ipynb\<close> defines the sampler class
  \<^verbatim>\<open>BrokenMH\<close>, the target class \<^verbatim>\<open>NormalDist\<close>, the driver \<^verbatim>\<open>get_klds\<close> and the
  experiment cell. They are embedded here function by function.

  Conventions of the embedding.
  \<^item> Python floats are idealised as \<open>real\<close>; a float result that is \<^verbatim>\<open>nan\<close> or
    \<^verbatim>\<open>inf\<close> is the value \<open>NonFinite\<close>.
  \<^item> The experiment is one-dimensional: an array of shape \<^verbatim>\<open>(1,)\<close> is its entry,
    the \<^verbatim>\<open>n x 1\<close> sample matrix is the list of its entries, the \<^verbatim>\<open>1 x 1\<close> covariance
    matrix is its entry.
  \<^item> An exception is a value \<open>Inl e\<close> of a sum type.
  \<^item> The two process-wide pseudo-random generators (\<^verbatim>\<open>random\<close> and
    \<^verbatim>\<open>numpy.random\<close>) are an explicit state, passed in and returned.
  \<^item> The classes and functions of the libraries \<^verbatim>\<open>pints\<close>, \<^verbatim>\<open>random\<close> and
    \<^verbatim>\<open>numpy.random\<close> that the notebook calls but does not define are the fields
    of a record \<open>extern\<close>, a parameter of every function that reaches them.
  \<^item> Where a property depends on what the library does (how long a chain runs, how a
    fresh sampler starts, which state it consults), the library is the instance
    \<open>pints\<close> of that record, written from the specification's description of it.
\<close>

subsection \<open>Ambient state: the pseudo-random generators\<close>

text \<open>
  Python's generator \<^verbatim>\<open>random\<close>: the stream of uniform values it will produce and
  the cursor into it. \<^verbatim>\<open>random.random()\<close> returns the value under the cursor and
  advances the cursor by one.
\<close>

record rng =
  draws :: "nat \<Rightarrow> real"
  cursor :: nat

text \<open>
  The state of \<^verbatim>\<open>numpy.random\<close> is only touched by library code: it stays abstract.
  Whatever other state the process holds lives in the record's extension, so that a
  function on \<open>world_scheme\<close> is free to read it and to change it.
\<close>

record 'g world =
  py_random :: rng
  np_random :: 'g

definition random_random :: "('g, 'm) world_scheme \<Rightarrow> real \<times> ('g, 'm) world_scheme" where
  "random_random w =
     (draws (py_random w) (cursor (py_random w)),
      w\<lparr>py_random := (py_random w)\<lparr>cursor := Suc (cursor (py_random w))\<rparr>\<rparr>)"

text \<open>\<^verbatim>\<open>random.random()\<close> is documented to return a float in \<open>[0, 1)\<close>.\<close>

definition uniform01 :: "rng \<Rightarrow> bool" where
  "uniform01 g \<longleftrightarrow> (\<forall>i. 0 \<le> draws g i \<and> draws g i < 1)"

subsection \<open>The sampler object\<close>

datatype py_error = RuntimeError | ValueError | LinAlgError | IndexError

text \<open>
  The attributes of \<^verbatim>\<open>pints.MetropolisRandomWalkMCMC\<close> that \<^verbatim>\<open>BrokenMH.tell\<close> reads and
  writes. Any further attribute of the base class lives in the record's extension.
  \<^verbatim>\<open>_iterations\<close> is a counter (set to zero at construction, incremented by a step),
  hence a natural number.
\<close>

record mh_sampler =
  current :: "real option"
  current_log_pdf :: "real option"
  proposed :: "real option"
  iterations :: nat
  acceptance :: real

text \<open>
  A \<^verbatim>\<open>BrokenMH\<close> object: the inherited part and the attribute \<^verbatim>\<open>error_freq\<close> the subclass
  adds. Methods of the base class see the inherited part only.
\<close>

record 'z broken_mh =
  base :: "'z mh_sampler_scheme"
  error_freq :: real

text \<open>A one-dimensional Gaussian target: the attributes \<^verbatim>\<open>_mean\<close>, \<^verbatim>\<open>_sigma\<close> (the
  covariance) and \<^verbatim>\<open>_n_parameters\<close> of \<^verbatim>\<open>pints.toy.GaussianLogPDF\<close>.\<close>

record normal_dist =
  mean :: real
  sigma :: real
  n_parameters :: nat

text \<open>A chain controller: its target, its samplers and what the caller has configured
  (\<open>None\<close>: left at the library's default).\<close>

record 'z controller =
  log_pdf :: normal_dist
  samplers :: "'z broken_mh list"
  max_iterations :: "nat option"
  log_to_screen :: "bool option"

text \<open>
  The library code the notebook calls:
  \<^item> \<open>gaussian_init mean sigma\<close>: \<^verbatim>\<open>pints.toy.GaussianLogPDF.__init__\<close>;
  \<^item> \<open>mh_init x0 sigma0\<close>: \<^verbatim>\<open>pints.MetropolisRandomWalkMCMC.__init__\<close>;
  \<^item> \<open>mh_tell\<close>: \<^verbatim>\<open>pints.MetropolisRandomWalkMCMC.tell\<close>, which returns a sample or
    raises, and changes the inherited part of the sampler and the generators;
  \<^item> \<open>controller_run\<close>: \<^verbatim>\<open>pints.MCMCController.run\<close>, which returns the chains or raises;
  \<^item> \<open>py_seed\<close>, \<open>np_seed\<close>: the generator states that \<^verbatim>\<open>random.seed\<close> and
    \<^verbatim>\<open>numpy.random.seed\<close> install.
\<close>

record ('z, 'g, 'm) extern =
  gaussian_init :: "real \<Rightarrow> real \<Rightarrow> normal_dist"
  mh_init :: "real \<Rightarrow> real option \<Rightarrow> 'z mh_sampler_scheme"
  mh_tell :: "'z mh_sampler_scheme \<Rightarrow> real \<Rightarrow> ('g, 'm) world_scheme \<Rightarrow>
                (py_error + real option) \<times> 'z mh_sampler_scheme \<times> ('g, 'm) world_scheme"
  controller_run :: "'z controller \<Rightarrow> ('g, 'm) world_scheme \<Rightarrow> (py_error + real list list) \<times> ('g, 'm) world_scheme"
  py_seed :: "int \<Rightarrow> rng"
  np_seed :: "int \<Rightarrow> 'g"

subsection \<open>Class \<^verbatim>\<open>BrokenMH\<close>\<close>

text \<open>\<^verbatim>\<open>__init__\<close>: the inherited constructor, then \<^verbatim>\<open>self.error_freq = 0.0\<close>.\<close>

definition BrokenMH_init :: "('z, 'g, 'm) extern \<Rightarrow> real \<Rightarrow> real option \<Rightarrow> 'z broken_mh" where
  "BrokenMH_init ext x sigma0 = \<lparr>base = mh_init ext x sigma0, error_freq = 0\<rparr>"

definition set_error_freq :: "'z broken_mh \<Rightarrow> real \<Rightarrow> 'z broken_mh" where
  "set_error_freq self p = self\<lparr>error_freq := p\<rparr>"

text \<open>
  The test of \<^verbatim>\<open>tell\<close>,
  \<^verbatim>\<open>self.error_freq == 0.0 or random.random() > self.error_freq\<close>, with its effect on
  the generator: \<^verbatim>\<open>or\<close> evaluates its right operand only when the left one is false.
\<close>

datatype branch = Normal | Fault

definition tell_test :: "'z broken_mh \<Rightarrow> ('g, 'm) world_scheme \<Rightarrow> branch \<times> ('g, 'm) world_scheme" where
  "tell_test self w =
     (if error_freq self = 0 then (Normal, w)
      else case random_random w of
             (u, w') \<Rightarrow> (if u > error_freq self then Normal else Fault, w'))"

text \<open>The first branch: \<^verbatim>\<open>return super().tell(fx)\<close>.\<close>

definition delegate ::
  "('z, 'g, 'm) extern \<Rightarrow> 'z broken_mh \<Rightarrow> real \<Rightarrow> ('g, 'm) world_scheme \<Rightarrow>
     (py_error + real option) \<times> 'z broken_mh \<times> ('g, 'm) world_scheme" where
  "delegate ext self fx w =
     (case mh_tell ext (base self) fx w of (r, b', w') \<Rightarrow> (r, self\<lparr>base := b'\<rparr>, w'))"

text \<open>The second branch, assignment by assignment.\<close>

definition force_accept :: "'z broken_mh \<Rightarrow> real \<Rightarrow> (py_error + real option) \<times> 'z broken_mh" where
  "force_accept self fx =
     (let b0 = base self;
          b1 = b0\<lparr>acceptance := (real (iterations b0) * acceptance b0 + 1) /
                                real (iterations b0 + 1)\<rparr>;
          b2 = b1\<lparr>iterations := iterations b1 + 1\<rparr>;
          b3 = b2\<lparr>current := proposed b2\<rparr>;
          b4 = b3\<lparr>current_log_pdf := Some fx\<rparr>;
          b5 = b4\<lparr>proposed := None\<rparr>
      in (Inr (current b5), self\<lparr>base := b5\<rparr>))"

definition tell ::
  "('z, 'g, 'm) extern \<Rightarrow> 'z broken_mh \<Rightarrow> real \<Rightarrow> ('g, 'm) world_scheme \<Rightarrow>
     (py_error + real option) \<times> 'z broken_mh \<times> ('g, 'm) world_scheme" where
  "tell ext self fx w =
     (case tell_test self w of
        (Normal, w') \<Rightarrow> delegate ext self fx w'
      | (Fault, w') \<Rightarrow> (case force_accept self fx of (r, self') \<Rightarrow> (r, self', w')))"

subsection \<open>Class \<^verbatim>\<open>NormalDist\<close>: the divergence metric\<close>

text \<open>
  numpy on the one-dimensional case. \<^verbatim>\<open>np.mean(samples, axis=0)\<close> is the arithmetic mean.
  \<^verbatim>\<open>np.cov(samples.T)\<close>, called with numpy's default normalisation, sums the squared
  deviations from the mean and divides by \<open>n - 1\<close>.
\<close>

definition np_mean :: "real list \<Rightarrow> real" where
  "np_mean xs = sum_list xs / real (length xs)"

definition np_cov :: "real list \<Rightarrow> real" where
  "np_cov xs = (\<Sum>x\<leftarrow>xs. (x - np_mean xs)\<^sup>2) / (real (length xs) - 1)"

datatype np_float = Finite real | NonFinite

text \<open>The three terms of \<^verbatim>\<open>kl_divergence\<close>, named as its local variables are. In one
  dimension \<^verbatim>\<open>np.cov\<close> returns a scalar, which the method reshapes to a \<^verbatim>\<open>1 x 1\<close> matrix;
  the inverse of \<^verbatim>\<open>s1\<close> is \<open>1 / s1\<close>, trace and determinant are the entry.\<close>

definition dkl1 :: "normal_dist \<Rightarrow> real list \<Rightarrow> real" where
  "dkl1 self samples = (1 / sigma self) * np_cov samples"

definition dkl2 :: "normal_dist \<Rightarrow> real list \<Rightarrow> real" where
  "dkl2 self samples =
     (mean self - np_mean samples) * (1 / sigma self) * (mean self - np_mean samples)"

definition dkl3 :: "normal_dist \<Rightarrow> real list \<Rightarrow> real" where
  "dkl3 self samples = ln (sigma self / np_cov samples)"

text \<open>
  \<^verbatim>\<open>np.linalg.inv(s1)\<close> raises \<^verbatim>\<open>LinAlgError\<close> on a singular matrix. Nothing else
  raises: with fewer than two samples mean or covariance are \<^verbatim>\<open>nan\<close>, a zero
  empirical covariance makes the quotient of the determinants infinite, a negative
  quotient has no logarithm; the float returned is then not finite.
\<close>

definition kl_divergence :: "normal_dist \<Rightarrow> real list \<Rightarrow> py_error + np_float" where
  "kl_divergence self samples =
     (if sigma self = 0 then Inl LinAlgError
      else if length samples < 2 \<or> np_cov samples = 0 \<or> sigma self / np_cov samples < 0
        then Inr NonFinite
      else Inr (Finite (1 / 2 * (dkl1 self samples + dkl2 self samples + dkl3 self samples
                                  - real (n_parameters self)))))"

text \<open>
  The covariance as the specification words it, for comparison with \<open>np_cov\<close>: the
  population covariance, the sum of the squared deviations divided by \<open>n\<close>.
\<close>

definition population_cov :: "real list \<Rightarrow> real" where
  "population_cov xs = (\<Sum>x\<leftarrow>xs. (x - np_mean xs)\<^sup>2) / real (length xs)"

subsection \<open>The driver \<^verbatim>\<open>get_klds\<close>\<close>

text \<open>
  Modelled from the spec: the constructor and the setters of \<^verbatim>\<open>pints.MCMCController\<close>,
  which the notebook calls and does not define. The constructor instantiates one
  fresh sampler per chain by calling \<^verbatim>\<open>method(x0[i], sigma0)\<close>, here \<^verbatim>\<open>BrokenMH\<close>
  with no \<^verbatim>\<open>sigma0\<close>; \<^verbatim>\<open>samplers()\<close> returns these objects; the setters store their
  argument.
\<close>

definition MCMCController ::
  "('z, 'g, 'm) extern \<Rightarrow> normal_dist \<Rightarrow> nat \<Rightarrow> real list \<Rightarrow> 'z controller" where
  "MCMCController ext target n_chains xs =
     \<lparr>log_pdf = target,
      samplers = map (\<lambda>x. BrokenMH_init ext x None) (take n_chains xs),
      max_iterations = None,
      log_to_screen = None\<rparr>"

definition set_max_iterations :: "'z controller \<Rightarrow> nat \<Rightarrow> 'z controller" where
  "set_max_iterations mcmc n = mcmc\<lparr>max_iterations := Some n\<rparr>"

definition set_log_to_screen :: "'z controller \<Rightarrow> bool \<Rightarrow> 'z controller" where
  "set_log_to_screen mcmc b = mcmc\<lparr>log_to_screen := Some b\<rparr>"

text \<open>The first five statements of the loop body: the controller that is run for \<open>run\<close>.\<close>

definition configure ::
  "('z, 'g, 'm) extern \<Rightarrow> normal_dist \<Rightarrow> real list \<Rightarrow> int \<Rightarrow> real \<Rightarrow> int \<Rightarrow> 'z controller" where
  "configure ext target xs start_breaking error_freq' run =
     (let mcmc = MCMCController ext target 1 xs;
          mcmc = set_max_iterations mcmc 1000;
          mcmc = (if run \<ge> start_breaking
                  then mcmc\<lparr>samplers := map (\<lambda>s. set_error_freq s error_freq') (samplers mcmc)\<rparr>
                  else mcmc)
      in set_log_to_screen mcmc False)"

text \<open>The whole loop body: run the chains, take \<^verbatim>\<open>chains[0]\<close>, compute its divergence.\<close>

definition get_klds_body ::
  "('z, 'g, 'm) extern \<Rightarrow> normal_dist \<Rightarrow> real list \<Rightarrow> int \<Rightarrow> real \<Rightarrow> int \<Rightarrow> ('g, 'm) world_scheme \<Rightarrow>
     (py_error + np_float) \<times> ('g, 'm) world_scheme" where
  "get_klds_body ext target xs start_breaking error_freq' run w =
     (case controller_run ext (configure ext target xs start_breaking error_freq' run) w of
        (Inl e, w') \<Rightarrow> (Inl e, w')
      | (Inr [], w') \<Rightarrow> (Inl IndexError, w')
      | (Inr (chain # _), w') \<Rightarrow> (kl_divergence target chain, w'))"

text \<open>\<^verbatim>\<open>for run in range(num_runs)\<close>, with \<^verbatim>\<open>klds\<close> as the accumulator. An exception
  leaves the loop.\<close>

fun get_klds_loop ::
  "('z, 'g, 'm) extern \<Rightarrow> normal_dist \<Rightarrow> real list \<Rightarrow> int \<Rightarrow> real \<Rightarrow> int list \<Rightarrow>
     np_float list \<Rightarrow> ('g, 'm) world_scheme \<Rightarrow> (py_error + np_float list) \<times> ('g, 'm) world_scheme" where
  "get_klds_loop ext target xs start_breaking error_freq' [] klds w = (Inr klds, w)"
| "get_klds_loop ext target xs start_breaking error_freq' (run # runs) klds w =
     (case get_klds_body ext target xs start_breaking error_freq' run w of
        (Inl e, w') \<Rightarrow> (Inl e, w')
      | (Inr kld, w') \<Rightarrow>
          get_klds_loop ext target xs start_breaking error_freq' runs (klds @ [kld]) w')"

definition range_py :: "int \<Rightarrow> int list" where
  "range_py n = map int [0..<nat n]"

text \<open>\<^verbatim>\<open>posterior = NormalDist(np.array([1.0]), np.array([0.1**2]))\<close>: the class
  \<^verbatim>\<open>NormalDist\<close> inherits its constructor. \<^verbatim>\<open>x0 = [np.array([1.0])]\<close>.\<close>

definition posterior :: "('z, 'g, 'm) extern \<Rightarrow> normal_dist" where
  "posterior ext = gaussian_init ext 1 ((1 / 10)\<^sup>2)"

definition x0 :: "real list" where
  "x0 = [1]"

definition get_klds ::
  "('z, 'g, 'm) extern \<Rightarrow> int \<Rightarrow> int \<Rightarrow> real \<Rightarrow> ('g, 'm) world_scheme \<Rightarrow> (py_error + np_float list) \<times> ('g, 'm) world_scheme" where
  "get_klds ext num_runs start_breaking error_freq' w =
     get_klds_loop ext (posterior ext) x0 start_breaking error_freq' (range_py num_runs) [] w"

text \<open>The generators as they stand when run \<open>r\<close> of \<^verbatim>\<open>get_klds\<close> begins.\<close>

primrec world_at :: "('z, 'g, 'm) extern \<Rightarrow> int \<Rightarrow> real \<Rightarrow> ('g, 'm) world_scheme \<Rightarrow> nat \<Rightarrow> ('g, 'm) world_scheme" where
  "world_at ext start_breaking error_freq' w 0 = w"
| "world_at ext start_breaking error_freq' w (Suc r) =
     snd (get_klds_body ext (posterior ext) x0 start_breaking error_freq' (int r)
            (world_at ext start_breaking error_freq' w r))"

subsection \<open>The experiment cell\<close>

definition random_seed :: "('z, 'g, 'm) extern \<Rightarrow> int \<Rightarrow> ('g, 'm) world_scheme \<Rightarrow> ('g, 'm) world_scheme" where
  "random_seed ext k w = w\<lparr>py_random := py_seed ext k\<rparr>"

definition np_random_seed :: "('z, 'g, 'm) extern \<Rightarrow> int \<Rightarrow> ('g, 'm) world_scheme \<Rightarrow> ('g, 'm) world_scheme" where
  "np_random_seed ext k w = w\<lparr>np_random := np_seed ext k\<rparr>"

text \<open>\<^verbatim>\<open>random.seed(1000); np.random.seed(1000); klds = get_klds(60, 30, 0.15)\<close>\<close>

definition experiment_cell ::
  "('z, 'g, 'm) extern \<Rightarrow> ('g, 'm) world_scheme \<Rightarrow> (py_error + np_float list) \<times> ('g, 'm) world_scheme" where
  "experiment_cell ext w =
     get_klds ext 60 30 (15 / 100) (np_random_seed ext 1000 (random_seed ext 1000 w))"

subsection \<open>The step protocol\<close>

text \<open>
  Modelled from the spec: the propose / evaluate / step protocol by which the
  library's controller drives a sampler, once per iteration (sections 4.1 and 6 of
  the specification). An iteration places a proposal \<open>x\<close> in the pending-proposal slot,
  evaluates its log-density \<open>fx\<close> and calls \<^verbatim>\<open>tell(fx)\<close>; the chain records what \<^verbatim>\<open>tell\<close>
  returns. The proposals and log-densities of the iterations are the list \<open>ps\<close>; next
  to each recorded value stands the branch that \<^verbatim>\<open>tell\<close> took.
\<close>

definition ask :: "'z broken_mh \<Rightarrow> real \<Rightarrow> 'z broken_mh" where
  "ask self x = self\<lparr>base := (base self)\<lparr>proposed := Some x\<rparr>\<rparr>"

fun run_chain ::
  "('z, 'g, 'm) extern \<Rightarrow> 'z broken_mh \<Rightarrow> (real \<times> real) list \<Rightarrow> ('g, 'm) world_scheme \<Rightarrow>
     (branch \<times> (py_error + real option)) list \<times> 'z broken_mh \<times> ('g, 'm) world_scheme" where
  "run_chain ext self [] w = ([], self, w)"
| "run_chain ext self ((x, fx) # ps) w =
     (case tell ext (ask self x) fx w of
        (y, self', w') \<Rightarrow>
          (case run_chain ext self' ps w' of
             (ys, self'', w'') \<Rightarrow> ((fst (tell_test (ask self x) w), y) # ys, self'', w'')))"

subsection \<open>The library as the specification describes it\<close>

text \<open>
  What the specification leaves to its collaborators: the constructor of the target
  and its log-density, the kernel that proposes the next point from the current
  sample, numpy's uniform draw, the iteration limit of a controller that was given
  none, and the generator states that seeding installs. The kernel and the draw are
  functions of the state of \<^verbatim>\<open>numpy.random\<close>.
\<close>

record 'g engine =
  target_init :: "real \<Rightarrow> real \<Rightarrow> normal_dist"
  log_density :: "normal_dist \<Rightarrow> real \<Rightarrow> real"
  propose :: "real option \<Rightarrow> 'g \<Rightarrow> real \<times> 'g"
  np_uniform :: "'g \<Rightarrow> real \<times> 'g"
  default_iterations :: nat
  seed_py :: "int \<Rightarrow> rng"
  seed_np :: "int \<Rightarrow> 'g"

text \<open>
  Modelled from the spec: the constructor of \<^verbatim>\<open>pints.MetropolisRandomWalkMCMC\<close>, which
  the notebook inherits and does not define. Section 4.2, step 1: a fresh sampler has
  iteration count 0, acceptance rate 0 and the fixed start point as its current
  sample. No log-density has been evaluated and no proposal is pending.
\<close>

definition spec_mh_init :: "real \<Rightarrow> real option \<Rightarrow> mh_sampler" where
  "spec_mh_init x sigma0 =
     \<lparr>current = Some x, current_log_pdf = None, proposed = None,
      iterations = 0, acceptance = 0\<rparr>"

text \<open>
  Modelled from the spec: \<^verbatim>\<open>pints.MetropolisRandomWalkMCMC.tell\<close>, which the notebook
  calls as \<^verbatim>\<open>super().tell(fx)\<close> and does not define. Section 4.1: accept the proposal
  with probability \<open>min(1, exp(proposal_log_density - current_log_density))\<close>, here by
  comparing a uniform draw with it; update the running acceptance rate accordingly;
  advance the iteration count; return the (possibly unchanged) current sample. It has
  no error conditions. A sampler that has no current log-density yet has nothing to
  compare with and accepts.
\<close>

definition spec_mh_tell ::
  "'g engine \<Rightarrow> mh_sampler \<Rightarrow> real \<Rightarrow> ('g, 'm) world_scheme \<Rightarrow>
     (py_error + real option) \<times> mh_sampler \<times> ('g, 'm) world_scheme" where
  "spec_mh_tell eng b fx w =
     (case np_uniform eng (np_random w) of
        (u, g') \<Rightarrow>
          (let accepted = (case current_log_pdf b of
                             None \<Rightarrow> True
                           | Some cur \<Rightarrow> u < min 1 (exp (fx - cur)));
               b1 = (if accepted then b\<lparr>current := proposed b, current_log_pdf := Some fx\<rparr>
                     else b);
               b2 = b1\<lparr>acceptance := (real (iterations b) * acceptance b +
                                        (if accepted then 1 else 0)) /
                                      real (iterations b + 1)\<rparr>;
               b3 = b2\<lparr>iterations := iterations b + 1\<rparr>;
               b4 = b3\<lparr>proposed := None\<rparr>
           in (Inr (current b4), b4, w\<lparr>np_random := g'\<rparr>)))"

text \<open>
  Modelled from the spec: \<^verbatim>\<open>pints.MCMCController.run\<close>, which the notebook calls and does
  not define. Sections 4.2 (step 3), 3 and 6: the controller runs each chain for
  exactly the configured number of iterations; an iteration proposes a point from
  the current sample, evaluates the target's log-density there and calls the
  sampler's own \<^verbatim>\<open>tell\<close>, here that of \<^verbatim>\<open>BrokenMH\<close>; the chain is the sequence of the
  samples \<^verbatim>\<open>tell\<close> returns, one per iteration. An exception of \<^verbatim>\<open>tell\<close> leaves the run,
  and so does a step that returns no sample.
\<close>

fun run_iterations ::
  "('z, 'g, 'm) extern \<Rightarrow> 'g engine \<Rightarrow> normal_dist \<Rightarrow> nat \<Rightarrow> 'z broken_mh \<Rightarrow>
     ('g, 'm) world_scheme \<Rightarrow> (py_error + real list) \<times> 'z broken_mh \<times> ('g, 'm) world_scheme" where
  "run_iterations ext eng target 0 self w = (Inr [], self, w)"
| "run_iterations ext eng target (Suc n) self w =
     (case propose eng (current (base self)) (np_random w) of
        (x, g') \<Rightarrow>
          (case tell ext (ask self x) (log_density eng target x) (w\<lparr>np_random := g'\<rparr>) of
             (Inl e, self', w') \<Rightarrow> (Inl e, self', w')
           | (Inr None, self', w') \<Rightarrow> (Inl ValueError, self', w')
           | (Inr (Some y), self', w') \<Rightarrow>
               (case run_iterations ext eng target n self' w' of
                  (Inl e, self'', w'') \<Rightarrow> (Inl e, self'', w'')
                | (Inr ys, self'', w'') \<Rightarrow> (Inr (y # ys), self'', w''))))"

fun run_samplers ::
  "('z, 'g, 'm) extern \<Rightarrow> 'g engine \<Rightarrow> normal_dist \<Rightarrow> nat \<Rightarrow> 'z broken_mh list \<Rightarrow>
     ('g, 'm) world_scheme \<Rightarrow> (py_error + real list list) \<times> ('g, 'm) world_scheme" where
  "run_samplers ext eng target n [] w = (Inr [], w)"
| "run_samplers ext eng target n (self # rest) w =
     (case run_iterations ext eng target n self w of
        (Inl e, self', w') \<Rightarrow> (Inl e, w')
      | (Inr chain, self', w') \<Rightarrow>
          (case run_samplers ext eng target n rest w' of
             (Inl e, w'') \<Rightarrow> (Inl e, w'')
           | (Inr cs, w'') \<Rightarrow> (Inr (chain # cs), w'')))"

definition spec_controller_run ::
  "('z, 'g, 'm) extern \<Rightarrow> 'g engine \<Rightarrow> 'z controller \<Rightarrow> ('g, 'm) world_scheme \<Rightarrow>
     (py_error + real list list) \<times> ('g, 'm) world_scheme" where
  "spec_controller_run ext eng mcmc w =
     run_samplers ext eng (log_pdf mcmc)
       (case max_iterations mcmc of None \<Rightarrow> default_iterations eng | Some n \<Rightarrow> n)
       (samplers mcmc) w"

text \<open>
  The library assembled. The controller calls the \<^verbatim>\<open>tell\<close> of the samplers it holds,
  and \<^verbatim>\<open>tell\<close> reaches the sampler classes only; the record is therefore built in two
  steps, first the sampler classes, the target and the generators with a controller
  that refuses to run, then the controller of the specification on top of them.
\<close>

definition pints_samplers :: "'g engine \<Rightarrow> (unit, 'g, 'm) extern" where
  "pints_samplers eng =
     \<lparr>gaussian_init = target_init eng,
      mh_init = spec_mh_init,
      mh_tell = spec_mh_tell eng,
      controller_run = (\<lambda>mcmc w. (Inl RuntimeError, w)),
      py_seed = seed_py eng,
      np_seed = seed_np eng\<rparr>"

definition pints :: "'g engine \<Rightarrow> (unit, 'g, 'm) extern" where
  "pints eng =
     (pints_samplers eng)\<lparr>controller_run := spec_controller_run (pints_samplers eng) eng\<rparr>"

text \<open>Two states of the process that agree on both generators, whatever else they hold.\<close>

definition same_generators :: "('g, 'm) world_scheme \<Rightarrow> ('g, 'm) world_scheme \<Rightarrow> bool" where
  "same_generators w w' \<longleftrightarrow> py_random w = py_random w' \<and> np_random w = np_random w'"

subsection \<open>A concrete library, for instances of the theorems\<close>

text \<open>
  One instance of the library interface, on which the hypotheses of the theorems
  below are checked: a step that takes one draw \<open>u\<close> of numpy's generator and
  accepts an uphill proposal always, a downhill one when \<open>u < 1/2\<close>; a controller whose
  chain depends on the error frequency of its sampler, generators that produce
  \<open>1/4, 1/2, 1/2, ...\<close>.
\<close>

definition demo_rng :: rng where
  "demo_rng = \<lparr>draws = (\<lambda>i. if i = 0 then 1 / 4 else 1 / 2), cursor = 0\<rparr>"

definition demo_world :: "rng world" where
  "demo_world = \<lparr>py_random = demo_rng, np_random = demo_rng\<rparr>"

definition demo_mh_tell ::
  "mh_sampler \<Rightarrow> real \<Rightarrow> rng world \<Rightarrow> (py_error + real option) \<times> mh_sampler \<times> rng world" where
  "demo_mh_tell b fx w =
     (case proposed b of
        None \<Rightarrow> (Inl RuntimeError, b, w)
      | Some x \<Rightarrow>
          (let u = draws (np_random w) (cursor (np_random w));
               w' = w\<lparr>np_random := (np_random w)\<lparr>cursor := Suc (cursor (np_random w))\<rparr>\<rparr>;
               accepted = (case current_log_pdf b of
                             None \<Rightarrow> True
                           | Some cur \<Rightarrow> cur \<le> fx \<or> u < 1 / 2);
               b1 = (if accepted then b\<lparr>current := Some x, current_log_pdf := Some fx\<rparr> else b);
               b2 = b1\<lparr>proposed := None,
                       acceptance := (real (iterations b) * acceptance b + (if accepted then 1 else 0)) /
                                     real (iterations b + 1),
                       iterations := iterations b + 1\<rparr>
           in (Inr (current b2), b2, w')))"

definition demo_controller_run ::
  "unit controller \<Rightarrow> rng world \<Rightarrow> (py_error + real list list) \<times> rng world" where
  "demo_controller_run mcmc w =
     (Inr (map (\<lambda>s. [1, 3 + error_freq s]) (samplers mcmc)),
      w\<lparr>np_random := (np_random w)\<lparr>cursor := Suc (cursor (np_random w))\<rparr>\<rparr>)"

definition demo_ext :: "(unit, rng, unit) extern" where
  "demo_ext =
     \<lparr>gaussian_init = (\<lambda>m s. \<lparr>mean = m, sigma = s, n_parameters = 1\<rparr>),
      mh_init = (\<lambda>x sigma0. \<lparr>current = None, current_log_pdf = None, proposed = None,
                              iterations = 0, acceptance = 0\<rparr>),
      mh_tell = demo_mh_tell,
      controller_run = demo_controller_run,
      py_seed = (\<lambda>k. demo_rng),
      np_seed = (\<lambda>k. demo_rng)\<rparr>"

definition demo_sampler :: "real \<Rightarrow> unit broken_mh" where
  "demo_sampler p =
     \<lparr>base = \<lparr>current = Some 1, current_log_pdf = Some 0, proposed = Some 2,
              iterations = 3, acceptance = 1 / 3\<rparr>,
      error_freq = p\<rparr>"

text \<open>An instance of the collaborators: a random-walk kernel and a uniform draw that
  read numpy's generator, and the log-density of a Gaussian up to its constant.\<close>

definition demo_engine :: "rng engine" where
  "demo_engine =
     \<lparr>target_init = (\<lambda>m s. \<lparr>mean = m, sigma = s, n_parameters = 1\<rparr>),
      log_density = (\<lambda>t x. - ((x - mean t)\<^sup>2) / (2 * sigma t)),
      propose = (\<lambda>c g. ((case c of None \<Rightarrow> 0 | Some x \<Rightarrow> x) + (draws g (cursor g) - 1 / 2),
                         g\<lparr>cursor := Suc (cursor g)\<rparr>)),
      np_uniform = (\<lambda>g. (draws g (cursor g), g\<lparr>cursor := Suc (cursor g)\<rparr>)),
      default_iterations = 10000,
      seed_py = (\<lambda>k. demo_rng),
      seed_np = (\<lambda>k. demo_rng)\<rparr>"

section \<open>Properties\<close>

subsection \<open>Helper facts about one step\<close>

lemmas demo_defs =
  demo_sampler_def demo_ext_def demo_mh_tell_def demo_world_def demo_rng_def
  demo_controller_run_def

lemma tell_test_zero: "error_freq self = 0 \<Longrightarrow> tell_test self w = (Normal, w)"
  by (simp add: tell_test_def)

lemma tell_zero: "error_freq self = 0 \<Longrightarrow> tell ext self fx w = delegate ext self fx w"
  by (simp add: tell_def tell_test_zero)

lemma tell_test_fault:
  assumes "error_freq self \<noteq> 0" "draws (py_random w) (cursor (py_random w)) \<le> error_freq self"
  shows "tell_test self w = (Fault, snd (random_random w))"
  using assms by (simp add: tell_test_def random_random_def)

lemma tell_test_normal:
  assumes "error_freq self \<noteq> 0" "draws (py_random w) (cursor (py_random w)) > error_freq self"
  shows "tell_test self w = (Normal, snd (random_random w))"
  using assms by (simp add: tell_test_def random_random_def)

lemma tell_Fault:
  assumes "tell_test self w = (Fault, w')"
  shows "tell ext self fx w = (fst (force_accept self fx), snd (force_accept self fx), w')"
  using assms by (simp add: tell_def split: prod.splits)

lemma tell_Normal:
  assumes "tell_test self w = (Normal, w')"
  shows "tell ext self fx w = delegate ext self fx w'"
  using assms by (simp add: tell_def)

lemma force_accept_eq:
  "force_accept self fx =
     (Inr (proposed (base self)),
      self\<lparr>base := (base self)
         \<lparr>acceptance := (real (iterations (base self)) * acceptance (base self) + 1) /
                         (real (iterations (base self)) + 1),
          iterations := iterations (base self) + 1,
          current := proposed (base self),
          current_log_pdf := Some fx,
          proposed := None\<rparr>\<rparr>)"
  by (simp add: force_accept_def Let_def add.commute)

lemma uniform01_random_random:
  "uniform01 (py_random w) \<Longrightarrow> uniform01 (py_random (snd (random_random w)))"
  by (simp add: uniform01_def random_random_def)

lemma tell_forced:
  assumes "error_freq self = 1" "uniform01 (py_random w)"
  shows "tell ext self fx w =
           (fst (force_accept self fx), snd (force_accept self fx), snd (random_random w))"
proof -
  have "draws (py_random w) (cursor (py_random w)) \<le> error_freq self"
    using assms by (simp add: uniform01_def less_imp_le)
  with assms(1) have "tell_test self w = (Fault, snd (random_random w))"
    by (simp add: tell_test_fault)
  then show ?thesis by (rule tell_Fault)
qed

lemma tell_test_forced:
  assumes "error_freq self = 1" "uniform01 (py_random w)"
  shows "fst (tell_test self w) = Fault"
proof -
  have "draws (py_random w) (cursor (py_random w)) \<le> error_freq self"
    using assms by (simp add: uniform01_def less_imp_le)
  with assms(1) show ?thesis by (simp add: tell_test_fault)
qed

lemma force_accept_ask:
  "error_freq (snd (force_accept (ask self x) fx)) = error_freq self"
  "iterations (base (snd (force_accept (ask self x) fx))) = Suc (iterations (base self))"
  "acceptance (base (snd (force_accept (ask self x) fx))) =
     (real (iterations (base self)) * acceptance (base self) + 1) / (real (iterations (base self)) + 1)"
  by (simp_all add: force_accept_eq ask_def)

lemma delegate_error_freq: "error_freq (fst (snd (delegate ext self fx w))) = error_freq self"
  by (simp add: delegate_def split: prod.splits)

subsection \<open>Helper facts about a chain of steps\<close>

lemma run_chain_Cons:
  "run_chain ext self ((x, fx) # ps) w =
     ((fst (tell_test (ask self x) w), fst (tell ext (ask self x) fx w)) #
        fst (run_chain ext (fst (snd (tell ext (ask self x) fx w))) ps
               (snd (snd (tell ext (ask self x) fx w)))),
      snd (run_chain ext (fst (snd (tell ext (ask self x) fx w))) ps
               (snd (snd (tell ext (ask self x) fx w)))))"
  by (simp split: prod.splits)

lemma run_chain_forced_step:
  assumes "error_freq self = 1" "uniform01 (py_random w)"
  shows "run_chain ext self ((x, fx) # ps) w =
     ((Fault, Inr (Some x)) #
        fst (run_chain ext (snd (force_accept (ask self x) fx)) ps (snd (random_random w))),
      snd (run_chain ext (snd (force_accept (ask self x) fx)) ps (snd (random_random w))))"
proof -
  have e: "error_freq (ask self x) = 1" using assms by (simp add: ask_def)
  have t: "tell ext (ask self x) fx w =
      (fst (force_accept (ask self x) fx), snd (force_accept (ask self x) fx), snd (random_random w))"
    using e assms(2) by (rule tell_forced)
  have b: "fst (tell_test (ask self x) w) = Fault"
    using e assms(2) by (rule tell_test_forced)
  have f: "fst (force_accept (ask self x) fx) = Inr (Some x)"
    by (simp add: force_accept_eq ask_def)
  show ?thesis unfolding run_chain_Cons t b by (simp add: f)
qed

lemma run_chain_forced_trace:
  assumes "error_freq self = 1" "uniform01 (py_random w)"
  shows "fst (run_chain ext self ps w) = map (\<lambda>(x, fx). (Fault, Inr (Some x))) ps"
  using assms
proof (induction ps arbitrary: self w)
  case Nil
  then show ?case by simp
next
  case (Cons p ps)
  obtain x fx where p: "p = (x, fx)" by (cases p)
  have "error_freq (snd (force_accept (ask self x) fx)) = 1"
    using Cons.prems(1) by (simp add: force_accept_ask)
  moreover have "uniform01 (py_random (snd (random_random w)))"
    using Cons.prems(2) by (rule uniform01_random_random)
  ultimately have "fst (run_chain ext (snd (force_accept (ask self x) fx)) ps (snd (random_random w)))
      = map (\<lambda>(x, fx). (Fault, Inr (Some x))) ps"
    by (rule Cons.IH)
  then show ?case
    by (simp add: p run_chain_forced_step [OF Cons.prems] del: run_chain.simps)
qed

lemma run_chain_forced_counters:
  assumes "error_freq self = 1" "uniform01 (py_random w)"
  shows "iterations (base (fst (snd (run_chain ext self ps w)))) = iterations (base self) + length ps
       \<and> acceptance (base (fst (snd (run_chain ext self ps w)))) *
            (real (iterations (base self)) + real (length ps)) =
          real (iterations (base self)) * acceptance (base self) + real (length ps)"
  using assms
proof (induction ps arbitrary: self w)
  case Nil
  then show ?case by (simp add: algebra_simps)
next
  case (Cons p ps)
  obtain x fx where p: "p = (x, fx)" by (cases p)
  let ?s = "snd (force_accept (ask self x) fx)"
  let ?w = "snd (random_random w)"
  let ?k = "real (iterations (base self))"
  let ?fin = "fst (snd (run_chain ext ?s ps ?w))"
  have s1: "error_freq ?s = 1" using Cons.prems(1) by (simp add: force_accept_ask)
  have s2: "uniform01 (py_random ?w)" using Cons.prems(2) by (rule uniform01_random_random)
  have k: "real (iterations (base ?s)) = ?k + 1"
    by (simp add: force_accept_ask)
  have a: "real (iterations (base ?s)) * acceptance (base ?s) = ?k * acceptance (base self) + 1"
    by (simp add: force_accept_ask add.commute)
  have r: "fst (snd (run_chain ext self (p # ps) w)) = ?fin"
    by (simp add: p run_chain_forced_step [OF Cons.prems] del: run_chain.simps)
  from Cons.IH [OF s1 s2]
  have i: "iterations (base ?fin) = iterations (base ?s) + length ps"
    and c: "acceptance (base ?fin) * (real (iterations (base ?s)) + real (length ps)) =
       real (iterations (base ?s)) * acceptance (base ?s) + real (length ps)"
    by simp_all
  have "iterations (base ?fin) = iterations (base self) + length (p # ps)"
    using i by (simp add: force_accept_ask)
  moreover have "acceptance (base ?fin) * (?k + real (length (p # ps))) =
      ?k * acceptance (base self) + real (length (p # ps))"
    using c unfolding a unfolding k by (simp add: algebra_simps)
  ultimately show ?case unfolding r by simp
qed

lemma run_chain_zero:
  assumes "error_freq self = 0"
  shows "map fst (fst (run_chain ext self ps w)) = replicate (length ps) Normal
       \<and> error_freq (fst (snd (run_chain ext self ps w))) = 0"
  using assms
proof (induction ps arbitrary: self w)
  case Nil
  then show ?case by simp
next
  case (Cons p ps)
  obtain x fx where p: "p = (x, fx)" by (cases p)
  have e: "error_freq (ask self x) = 0" using Cons.prems by (simp add: ask_def)
  have t: "tell ext (ask self x) fx w = delegate ext (ask self x) fx w"
    using e by (rule tell_zero)
  have b: "fst (tell_test (ask self x) w) = Normal"
    using e by (simp add: tell_test_zero)
  have "error_freq (fst (snd (delegate ext (ask self x) fx w))) = 0"
    using e by (simp add: delegate_error_freq)
  from Cons.IH [OF this] show ?case
    unfolding p run_chain_Cons t b by simp
qed

lemma forced_rate_limit:
  fixes c k :: real
  assumes "0 \<le> k"
  shows "(\<lambda>n. (c + real n) / (k + real n)) \<longlonglongrightarrow> 1"
proof -
  have "filterlim (\<lambda>n. k + real n) at_top sequentially"
    by (rule filterlim_tendsto_add_at_top [OF tendsto_const filterlim_real_sequentially])
  then have "filterlim (\<lambda>n. k + real n) at_infinity sequentially"
    by (rule filterlim_at_top_imp_at_infinity)
  then have "(\<lambda>n. (c - k) / (k + real n)) \<longlonglongrightarrow> 0"
    by (rule tendsto_divide_0 [OF tendsto_const])
  then have "(\<lambda>n. 1 + (c - k) / (k + real n)) \<longlonglongrightarrow> 1 + 0"
    by (intro tendsto_add tendsto_const)
  then have l: "(\<lambda>n. 1 + (c - k) / (k + real n)) \<longlonglongrightarrow> 1" by simp
  have "\<forall>n\<ge>1. 1 + (c - k) / (k + real n) = (c + real n) / (k + real n)"
  proof (intro allI impI)
    fix n :: nat assume "1 \<le> n"
    then have "k + real n \<noteq> 0" using assms by auto
    then show "1 + (c - k) / (k + real n) = (c + real n) / (k + real n)"
      by (simp add: field_simps)
  qed
  then have "eventually (\<lambda>n. 1 + (c - k) / (k + real n) = (c + real n) / (k + real n)) sequentially"
    unfolding eventually_sequentially by blast
  with l show ?thesis by (rule Lim_transform_eventually)
qed

subsection \<open>The fault-injecting step\<close>

text \<open>
  Claim C1. With error frequency 1 and a generator whose values lie in \<open>[0, 1)\<close>, every
  step of a chain takes the fault branch and force-accepts: the values the chain
  records are exactly the proposals, in order; after \<open>n\<close> steps from iteration count
  \<open>k\<close> and acceptance rate \<open>a\<close> the count is \<open>k + n\<close> and the rate is
  \<open>(k * a + n) / (k + n)\<close>, that is \<open>n / (n + k)\<close> when \<open>a = 0\<close>; along any infinite
  sequence of proposals the rate converges to 1.
\<close>

theorem error_freq_one_forces_acceptance:
  assumes "error_freq self = 1" and "uniform01 (py_random w)"
  shows "map fst (fst (run_chain ext self ps w)) = replicate (length ps) Fault
       \<and> map snd (fst (run_chain ext self ps w)) = map (\<lambda>(x, fx). Inr (Some x)) ps
       \<and> iterations (base (fst (snd (run_chain ext self ps w)))) = iterations (base self) + length ps
       \<and> (ps \<noteq> [] \<longrightarrow>
            acceptance (base (fst (snd (run_chain ext self ps w)))) =
              (real (iterations (base self)) * acceptance (base self) + real (length ps)) /
              (real (iterations (base self)) + real (length ps)))
       \<and> (ps \<noteq> [] \<and> acceptance (base self) = 0 \<longrightarrow>
            acceptance (base (fst (snd (run_chain ext self ps w)))) =
              real (length ps) / (real (length ps) + real (iterations (base self))))
       \<and> (\<lambda>n. acceptance (base (fst (snd (run_chain ext self (map props [0..<n]) w)))))
            \<longlonglongrightarrow> 1"
proof -
  let ?k = "real (iterations (base self))"
  let ?a = "acceptance (base self)"
  let ?fin = "\<lambda>ps. acceptance (base (fst (snd (run_chain ext self ps w))))"
  have tr: "fst (run_chain ext self ps w) = map (\<lambda>(x, fx). (Fault, Inr (Some x))) ps"
    using assms by (rule run_chain_forced_trace)
  have br: "map fst (fst (run_chain ext self ps w)) = replicate (length ps) Fault"
    unfolding tr by (induction ps) auto
  have ch: "map snd (fst (run_chain ext self ps w)) = map (\<lambda>(x, fx). Inr (Some x)) ps"
    unfolding tr by (induction ps) auto
  have cnt: "iterations (base (fst (snd (run_chain ext self qs w)))) = iterations (base self) + length qs
       \<and> ?fin qs * (?k + real (length qs)) = ?k * ?a + real (length qs)" for qs
    using assms by (rule run_chain_forced_counters)
  have rate: "?fin qs = (?k * ?a + real (length qs)) / (?k + real (length qs))" if "qs \<noteq> []" for qs
  proof -
    from that have "0 < real (length qs)" by simp
    then have "?k + real (length qs) \<noteq> 0" by (simp add: add_nonneg_pos less_imp_neq [symmetric])
    with cnt [of qs] show ?thesis by (simp add: field_simps)
  qed
  have rate0: "?fin ps = real (length ps) / (real (length ps) + ?k)" if "ps \<noteq> []" "?a = 0"
    using rate [OF that(1)] that(2) by (simp add: add.commute)
  have "(\<lambda>n. (?k * ?a + real n) / (?k + real n)) \<longlonglongrightarrow> 1"
    by (rule forced_rate_limit) simp
  moreover have "eventually (\<lambda>n. (?k * ?a + real n) / (?k + real n) = ?fin (map props [0..<n])) sequentially"
    unfolding eventually_sequentially
  proof (intro exI allI impI)
    fix n :: nat assume "1 \<le> n"
    then have "map props [0..<n] \<noteq> []" by simp
    from rate [OF this] show "(?k * ?a + real n) / (?k + real n) = ?fin (map props [0..<n])"
      by simp
  qed
  ultimately have lim: "(\<lambda>n. ?fin (map props [0..<n])) \<longlonglongrightarrow> 1"
    by (rule Lim_transform_eventually)
  show ?thesis using br ch cnt [of ps] rate [of ps] rate0 lim by blast
qed

theorem error_freq_one_forces_acceptance_witness:
  "error_freq (demo_sampler 1) = 1
   \<and> uniform01 (py_random demo_world)
   \<and> map snd (fst (run_chain demo_ext (demo_sampler 1) [(2, 0), (5, - 3)] demo_world))
       = [Inr (Some 2), Inr (Some 5)]
   \<and> iterations (base (fst (snd (run_chain demo_ext (demo_sampler 1) [(2, 0), (5, - 3)] demo_world)))) = 5
   \<and> acceptance (base (fst (snd (run_chain demo_ext (demo_sampler 1) [(2, 0), (5, - 3)] demo_world)))) = 3 / 5
   \<and> (\<lambda>n. acceptance (base (fst (snd (run_chain demo_ext (demo_sampler 1)
              (map (\<lambda>i. (real i, 0)) [0..<n]) demo_world))))) \<longlonglongrightarrow> 1"
proof -
  have e: "error_freq (demo_sampler 1) = 1" by (simp add: demo_sampler_def)
  have u: "uniform01 (py_random demo_world)"
    by (simp add: uniform01_def demo_world_def demo_rng_def)
  have k: "iterations (base (demo_sampler 1)) = 3" "acceptance (base (demo_sampler 1)) = 1 / 3"
    by (simp_all add: demo_sampler_def)
  from error_freq_one_forces_acceptance [OF e u, of demo_ext "[(2, 0), (5, - 3)]" "\<lambda>i. (real i, 0)"]
  show ?thesis using e u by (simp add: k)
qed

text \<open>
  Claim C2. With error frequency 0 the step of \<^verbatim>\<open>BrokenMH\<close> is the step of the
  unmodified Metropolis-Hastings sampler: the inherited \<^verbatim>\<open>tell\<close> runs on the same
  sampler state, the same log-density and the same, untouched generators, and its
  return value (or exception), its state update and its use of the generators are
  those of the whole step.
\<close>

theorem tell_error_freq_zero_is_mh_tell:
  assumes "error_freq self = 0"
  shows "tell ext self fx w =
           (fst (mh_tell ext (base self) fx w),
            self\<lparr>base := fst (snd (mh_tell ext (base self) fx w))\<rparr>,
            snd (snd (mh_tell ext (base self) fx w)))"
  using assms by (simp add: tell_zero delegate_def split: prod.splits)

theorem tell_error_freq_zero_is_mh_tell_witness:
  "error_freq (demo_sampler 0) = 0
   \<and> tell demo_ext (demo_sampler 0) 0 demo_world =
       (fst (demo_mh_tell (base (demo_sampler 0)) 0 demo_world),
        (demo_sampler 0)\<lparr>base := fst (snd (demo_mh_tell (base (demo_sampler 0)) 0 demo_world))\<rparr>,
        snd (snd (demo_mh_tell (base (demo_sampler 0)) 0 demo_world)))
   \<and> fst (tell demo_ext (demo_sampler 0) 0 demo_world) = Inr (Some 2)"
proof -
  have e: "error_freq (demo_sampler 0) = 0" by (simp add: demo_sampler_def)
  have m: "mh_tell demo_ext = demo_mh_tell" by (simp add: demo_ext_def)
  have v: "fst (demo_mh_tell (base (demo_sampler 0)) 0 demo_world) = Inr (Some 2)"
    by (simp add: demo_defs Let_def)
  from tell_error_freq_zero_is_mh_tell [OF e, of demo_ext 0 demo_world]
  show ?thesis using e by (simp add: m v)
qed

text \<open>
  Claim C3. Let \<open>u\<close> be the next value of Python's generator, in \<open>[0, 1)\<close>. The fault
  branch of \<^verbatim>\<open>tell\<close> runs exactly when \<open>0 < p\<close> and \<open>u \<le> p\<close>. When it runs, the step
  sets the acceptance rate to \<open>(k * a + 1) / (k + 1)\<close>, adds one to the iteration count,
  sets the current sample to the pending proposal and the current log-density to
  \<open>fx\<close>, clears the pending-proposal slot and returns the new current sample; the
  inherited step is not involved. In every other case the normal branch runs, and
  the step is the inherited one. So exactly one of the two branches runs.
\<close>

theorem tell_fault_branch:
  assumes "uniform01 (py_random w)"
  shows "(fst (tell_test self w) = Fault \<longleftrightarrow>
            0 < error_freq self \<and> draws (py_random w) (cursor (py_random w)) \<le> error_freq self)
       \<and> (fst (tell_test self w) = Fault \<longrightarrow>
            tell ext self fx w =
              (Inr (proposed (base self)),
               self\<lparr>base := (base self)
                  \<lparr>acceptance := (real (iterations (base self)) * acceptance (base self) + 1) /
                                  (real (iterations (base self)) + 1),
                   iterations := iterations (base self) + 1,
                   current := proposed (base self),
                   current_log_pdf := Some fx,
                   proposed := None\<rparr>\<rparr>,
               snd (random_random w)))
       \<and> (fst (tell_test self w) \<noteq> Fault \<longrightarrow>
            fst (tell_test self w) = Normal \<and>
            tell ext self fx w = delegate ext self fx (snd (tell_test self w)))"
proof -
  let ?u = "draws (py_random w) (cursor (py_random w))"
  have u0: "0 \<le> ?u" using assms by (simp add: uniform01_def)
  have iff: "fst (tell_test self w) = Fault \<longleftrightarrow> 0 < error_freq self \<and> ?u \<le> error_freq self"
    using u0 by (auto simp add: tell_test_def random_random_def)
  have fault: "tell ext self fx w =
      (fst (force_accept self fx), snd (force_accept self fx), snd (random_random w))"
    if "fst (tell_test self w) = Fault"
  proof -
    from that iff have "error_freq self \<noteq> 0" "?u \<le> error_freq self" by auto
    then have "tell_test self w = (Fault, snd (random_random w))" by (rule tell_test_fault)
    then show ?thesis by (rule tell_Fault)
  qed
  have normal: "fst (tell_test self w) = Normal \<and>
      tell ext self fx w = delegate ext self fx (snd (tell_test self w))"
    if "fst (tell_test self w) \<noteq> Fault"
  proof -
    from that have n: "fst (tell_test self w) = Normal" by (cases "fst (tell_test self w)") auto
    then have "tell_test self w = (Normal, snd (tell_test self w))"
      by (metis prod.collapse)
    then have "tell ext self fx w = delegate ext self fx (snd (tell_test self w))"
      by (rule tell_Normal)
    with n show ?thesis by simp
  qed
  show ?thesis using iff fault normal by (simp add: force_accept_eq)
qed

theorem tell_fault_branch_witness:
  "uniform01 (py_random demo_world)
   \<and> fst (tell_test (demo_sampler (1 / 2)) demo_world) = Fault
   \<and> tell demo_ext (demo_sampler (1 / 2)) 5 demo_world =
       (Inr (Some 2),
        \<lparr>base = \<lparr>current = Some 2, current_log_pdf = Some 5, proposed = None,
                 iterations = 4, acceptance = 1 / 2\<rparr>,
         error_freq = 1 / 2\<rparr>,
        \<lparr>py_random = demo_rng\<lparr>cursor := 1\<rparr>, np_random = demo_rng\<rparr>)"
proof -
  have u: "uniform01 (py_random demo_world)"
    by (simp add: uniform01_def demo_world_def demo_rng_def)
  have f: "fst (tell_test (demo_sampler (1 / 2)) demo_world) = Fault"
    by (simp add: tell_test_def random_random_def demo_defs)
  from tell_fault_branch [OF u, of "demo_sampler (1 / 2)" demo_ext 5] f
  show ?thesis using u by (simp add: demo_sampler_def demo_world_def random_random_def demo_rng_def)
qed

text \<open>
  Claim C8, as amended. \<^verbatim>\<open>tell\<close> draws exactly one value from Python's generator when
  the error frequency is not 0, and none when it is 0 (the test
  \<^verbatim>\<open>self.error_freq == 0.0 or ...\<close> short-circuits); the draw, if any, is made before
  either branch runs, and both branches continue from the generator state the test
  leaves.
\<close>

theorem tell_draws_once_unless_zero:
  "snd (tell_test self w) = (if error_freq self = 0 then w else snd (random_random w))
   \<and> cursor (py_random (snd (tell_test self w))) =
       cursor (py_random w) + (if error_freq self = 0 then 0 else 1)
   \<and> tell ext self fx w =
       (case fst (tell_test self w) of
          Normal \<Rightarrow> delegate ext self fx (snd (tell_test self w))
        | Fault \<Rightarrow> (fst (force_accept self fx), snd (force_accept self fx), snd (tell_test self w)))"
  by (simp add: tell_def tell_test_def random_random_def split: prod.splits branch.splits)

text \<open>
  Claim C8 as stated fails at error frequency 0: the step leaves the cursor of
  Python's generator where it was, so it has not drawn one value.
\<close>

theorem tell_zero_draws_nothing:
  "error_freq (demo_sampler 0) = 0
   \<and> cursor (py_random demo_world) = 0
   \<and> cursor (py_random (snd (tell_test (demo_sampler 0) demo_world))) = 0
   \<and> cursor (py_random (snd (snd (tell demo_ext (demo_sampler 0) 0 demo_world)))) = 0
   \<and> cursor (py_random (snd (snd (tell demo_ext (demo_sampler 0) 0 demo_world))))
        \<noteq> cursor (py_random demo_world) + 1"
  by (simp add: tell_def tell_test_def delegate_def demo_defs Let_def)

text \<open>
  Claim C10. A freshly constructed \<^verbatim>\<open>BrokenMH\<close> sampler has error frequency 0. As long
  as \<^verbatim>\<open>set_error_freq\<close> is not called, every \<^verbatim>\<open>tell\<close> of a chain of steps takes the
  normal branch, which delegates to the inherited \<^verbatim>\<open>tell\<close>, and the error frequency
  is still 0 afterwards: the fault branch is never taken.
\<close>

theorem fresh_sampler_never_faults:
  "error_freq (BrokenMH_init ext x sigma0) = 0
   \<and> tell_test (BrokenMH_init ext x sigma0) w = (Normal, w)
   \<and> tell ext (BrokenMH_init ext x sigma0) fx w = delegate ext (BrokenMH_init ext x sigma0) fx w
   \<and> map fst (fst (run_chain ext (BrokenMH_init ext x sigma0) ps w)) = replicate (length ps) Normal
   \<and> error_freq (fst (snd (run_chain ext (BrokenMH_init ext x sigma0) ps w))) = 0"
proof -
  have e: "error_freq (BrokenMH_init ext x sigma0) = 0" by (simp add: BrokenMH_init_def)
  show ?thesis
    using e tell_test_zero [OF e, of w] tell_zero [OF e, of ext fx w]
      run_chain_zero [OF e, of ext ps w] by simp
qed

subsection \<open>The divergence metric\<close>

text \<open>
  Claim C6, as amended. For at least two samples the empirical mean of the metric is
  the arithmetic mean, and its empirical covariance is the sample-corrected one: the
  sum of the squared deviations divided by \<open>n - 1\<close>, which is \<open>n / (n - 1)\<close> times the
  population covariance and differs from it whenever the samples are not all equal.
\<close>

theorem kl_covariance_is_sample_corrected:
  assumes "2 \<le> length samples"
  shows "real (length samples) * np_mean samples = sum_list samples
       \<and> (real (length samples) - 1) * np_cov samples = (\<Sum>x\<leftarrow>samples. (x - np_mean samples)\<^sup>2)
       \<and> np_cov samples =
           real (length samples) / (real (length samples) - 1) * population_cov samples
       \<and> dkl1 self samples =
           (1 / sigma self) *
           (real (length samples) / (real (length samples) - 1) * population_cov samples)
       \<and> (population_cov samples \<noteq> 0 \<longrightarrow> np_cov samples \<noteq> population_cov samples)"
proof -
  let ?n = "real (length samples)"
  let ?S = "(\<Sum>x\<leftarrow>samples. (x - np_mean samples)\<^sup>2)"
  have n: "?n \<noteq> 0" "?n - 1 \<noteq> 0" using assms by auto
  have m: "?n * np_mean samples = sum_list samples"
    using n by (simp add: np_mean_def)
  have s: "(?n - 1) * np_cov samples = ?S"
    using n by (simp add: np_cov_def)
  have a: "np_cov samples = ?n / (?n - 1) * population_cov samples"
    using n by (simp add: np_cov_def population_cov_def)
  have b: "np_cov samples \<noteq> population_cov samples" if "population_cov samples \<noteq> 0"
  proof
    assume "np_cov samples = population_cov samples"
    with a have "population_cov samples * (?n - 1) = ?n * population_cov samples"
      using n by (simp add: field_simps)
    then have "population_cov samples * (?n - 1 - ?n) = 0"
      by (simp add: algebra_simps)
    with that show False by simp
  qed
  have d: "dkl1 self samples = (1 / sigma self) * (?n / (?n - 1) * population_cov samples)"
    unfolding dkl1_def a ..
  show ?thesis using m s a b d by blast
qed

theorem kl_covariance_is_sample_corrected_witness:
  "2 \<le> length [1, 3 :: real]
   \<and> np_cov [1, 3] = 2 / (2 - 1) * population_cov [1, 3]
   \<and> population_cov [1, 3] = 1
   \<and> np_cov [1, 3] \<noteq> population_cov [1, 3]"
proof -
  have m: "np_mean [1, 3] = 2" by (simp add: np_mean_def)
  have p: "population_cov [1, 3] = 1" by (simp add: population_cov_def m)
  from kl_covariance_is_sample_corrected [of "[1, 3]" "\<lparr>mean = 2, sigma = 1, n_parameters = 1\<rparr>"]
  show ?thesis by (simp add: p)
qed

text \<open>
  Claim C6 as stated fails on the samples \<open>1, 3\<close>: their population covariance is 1,
  the metric computes 2. Against the target with mean 2 and covariance 1, which are
  the population mean and covariance of these samples, the divergence is
  \<open>(1 - ln 2) / 2\<close> and not 0.
\<close>

theorem kl_covariance_not_population:
  "np_mean [1, 3] = 2 \<and> population_cov [1, 3] = 1 \<and> np_cov [1, 3] = 2
   \<and> np_cov [1, 3] \<noteq> population_cov [1, 3]
   \<and> dkl1 \<lparr>mean = 2, sigma = 1, n_parameters = 1\<rparr> [1, 3] = 2
   \<and> kl_divergence \<lparr>mean = 2, sigma = 1, n_parameters = 1\<rparr> [1, 3] = Inr (Finite ((1 - ln 2) / 2))
   \<and> kl_divergence \<lparr>mean = 2, sigma = 1, n_parameters = 1\<rparr> [1, 3] \<noteq> Inr (Finite 0)"
proof -
  have m: "np_mean [1, 3] = 2" by (simp add: np_mean_def)
  have c: "np_cov [1, 3] = 2" by (simp add: np_cov_def m)
  have p: "population_cov [1, 3] = 1" by (simp add: population_cov_def m)
  have l: "ln (1 / 2 :: real) = - ln 2" by (simp add: ln_div)
  have k: "kl_divergence \<lparr>mean = 2, sigma = 1, n_parameters = 1\<rparr> [1, 3] = Inr (Finite ((1 - ln 2) / 2))"
    by (simp add: kl_divergence_def dkl1_def dkl2_def dkl3_def m c l)
  have "(1 - ln 2) / 2 \<noteq> (0 :: real)" using ln_2_less_1 by simp
  with k m c p show ?thesis by (simp add: dkl1_def)
qed

text \<open>
  Claim C7. For at least two samples whose empirical mean and covariance, as the
  metric computes them, equal the mean and the (non-singular) covariance of a
  one-parameter target, the trace term is 1, the quadratic term of the means is 0,
  the logarithm of the determinants' quotient is 0, and \<^verbatim>\<open>kl_divergence\<close> returns
  \<open>0.5 * (1 + 0 + 0 - 1) = 0\<close>.
\<close>

theorem kl_divergence_zero_on_match:
  assumes "2 \<le> length samples"
    and "np_mean samples = mean self"
    and "np_cov samples = sigma self"
    and "sigma self \<noteq> 0"
    and "n_parameters self = 1"
  shows "dkl1 self samples = 1 \<and> dkl2 self samples = 0 \<and> dkl3 self samples = 0
       \<and> kl_divergence self samples = Inr (Finite (1 / 2 * (1 + 0 + 0 - 1)))
       \<and> kl_divergence self samples = Inr (Finite 0)"
proof -
  have d1: "dkl1 self samples = 1" using assms(3,4) by (simp add: dkl1_def)
  have d2: "dkl2 self samples = 0" using assms(2) by (simp add: dkl2_def)
  have d3: "dkl3 self samples = 0" using assms(3,4) by (simp add: dkl3_def)
  have "kl_divergence self samples = Inr (Finite 0)"
    using assms by (simp add: kl_divergence_def d1 d2 d3)
  with d1 d2 d3 show ?thesis by simp
qed

theorem kl_divergence_zero_on_match_witness:
  "2 \<le> length [1, 3 :: real]
   \<and> np_mean [1, 3] = mean \<lparr>mean = 2, sigma = 2, n_parameters = 1\<rparr>
   \<and> np_cov [1, 3] = sigma \<lparr>mean = 2, sigma = 2, n_parameters = 1\<rparr>
   \<and> kl_divergence \<lparr>mean = 2, sigma = 2, n_parameters = 1\<rparr> [1, 3] = Inr (Finite 0)"
proof -
  have m: "np_mean [1, 3] = 2" by (simp add: np_mean_def)
  have c: "np_cov [1, 3] = 2" by (simp add: np_cov_def m)
  from kl_divergence_zero_on_match [of "[1, 3]" "\<lparr>mean = 2, sigma = 2, n_parameters = 1\<rparr>"]
  show ?thesis by (simp add: m c)
qed

subsection \<open>Helper facts about the driver\<close>

lemma configure_eq:
  "configure ext target [x] start_breaking e run =
     \<lparr>log_pdf = target,
      samplers = [\<lparr>base = mh_init ext x None,
                   error_freq = (if start_breaking \<le> run then e else 0)\<rparr>],
      max_iterations = Some 1000,
      log_to_screen = Some False\<rparr>"
  by (simp add: configure_def MCMCController_def set_max_iterations_def set_log_to_screen_def
      set_error_freq_def BrokenMH_init_def Let_def)

lemma configure_unbroken:
  assumes "run < start_breaking"
  shows "configure ext target xs start_breaking e run = configure ext target xs start_breaking 0 run"
  using assms by (simp add: configure_def)

lemma get_klds_body_unbroken:
  assumes "run < start_breaking"
  shows "get_klds_body ext target xs start_breaking e run w =
         get_klds_body ext target xs start_breaking 0 run w"
  by (simp add: get_klds_body_def configure_unbroken [OF assms, of ext target xs e])

lemma get_klds_loop_unbroken:
  assumes "\<forall>run \<in> set runs. run < start_breaking"
  shows "get_klds_loop ext target xs start_breaking e runs klds w =
         get_klds_loop ext target xs start_breaking 0 runs klds w"
  using assms
proof (induction runs arbitrary: klds w)
  case Nil
  then show ?case by simp
next
  case (Cons run runs)
  then have "run < start_breaking" by simp
  then have b: "get_klds_body ext target xs start_breaking e run w =
      get_klds_body ext target xs start_breaking 0 run w"
    by (rule get_klds_body_unbroken)
  from Cons show ?case by (simp add: b split: prod.splits sum.splits)
qed

lemma get_klds_loop_append:
  "get_klds_loop ext target xs sb e (rs @ rs') klds w =
     (case get_klds_loop ext target xs sb e rs klds w of
        (Inl err, w') \<Rightarrow> (Inl err, w')
      | (Inr klds', w') \<Rightarrow> get_klds_loop ext target xs sb e rs' klds' w')"
  by (induction rs arbitrary: klds w) (auto split: prod.splits sum.splits)

lemma get_klds_loop_upto:
  assumes "\<forall>r<n. \<exists>kld. fst (get_klds_body ext (posterior ext) x0 sb e (int r) (world_at ext sb e w r)) = Inr kld"
  shows "\<exists>klds. get_klds_loop ext (posterior ext) x0 sb e (map int [0..<n]) [] w =
                  (Inr klds, world_at ext sb e w n)
          \<and> length klds = n
          \<and> (\<forall>r<n. fst (get_klds_body ext (posterior ext) x0 sb e (int r) (world_at ext sb e w r)) =
                       Inr (klds ! r))"
  using assms
proof (induction n)
  case 0
  then show ?case by simp
next
  case (Suc n)
  let ?body = "\<lambda>r. get_klds_body ext (posterior ext) x0 sb e (int r) (world_at ext sb e w r)"
  from Suc.prems have "\<forall>r<n. \<exists>kld. fst (?body r) = Inr kld" by simp
  from Suc.IH [OF this] obtain klds where
    l: "get_klds_loop ext (posterior ext) x0 sb e (map int [0..<n]) [] w = (Inr klds, world_at ext sb e w n)"
    and n: "length klds = n"
    and v: "\<forall>r<n. fst (?body r) = Inr (klds ! r)"
    by blast
  from Suc.prems obtain kld where k: "fst (?body n) = Inr kld" by blast
  then have b: "?body n = (Inr kld, world_at ext sb e w (Suc n))"
    by (simp add: prod_eq_iff)
  have "get_klds_loop ext (posterior ext) x0 sb e (map int [0..<Suc n]) [] w =
      (Inr (klds @ [kld]), world_at ext sb e w (Suc n))"
    using b by (simp add: get_klds_loop_append l del: world_at.simps)
  moreover have "length (klds @ [kld]) = Suc n" using n by simp
  moreover have "\<forall>r<Suc n. fst (?body r) = Inr ((klds @ [kld]) ! r)"
    using v k n by (auto simp add: nth_append less_Suc_eq)
  ultimately show ?case by blast
qed

subsection \<open>Helper facts about the library of the specification\<close>

lemma tell_mh_tell_cong:
  assumes "mh_tell ext = mh_tell ext'"
  shows "tell ext self fx w = tell ext' self fx w"
proof -
  have "delegate ext self fx v = delegate ext' self fx v" for v
    by (simp add: delegate_def assms)
  then show ?thesis by (simp add: tell_def split: prod.splits branch.splits)
qed

lemma run_iterations_cong:
  assumes "mh_tell ext = mh_tell ext'"
  shows "run_iterations ext eng target n self w = run_iterations ext' eng target n self w"
  by (induction n arbitrary: self w)
     (simp_all add: tell_mh_tell_cong [OF assms] split: prod.splits sum.splits option.splits)

lemma pints_fields:
  "gaussian_init (pints eng) = target_init eng"
  "mh_init (pints eng) = spec_mh_init"
  "mh_tell (pints eng) = spec_mh_tell eng"
  "mh_tell (pints_samplers eng) = spec_mh_tell eng"
  "py_seed (pints eng) = seed_py eng"
  "np_seed (pints eng) = seed_np eng"
  by (simp_all add: pints_def pints_samplers_def)

lemma pints_controller_run:
  "controller_run (pints eng) mcmc w =
     run_samplers (pints eng) eng (log_pdf mcmc)
       (case max_iterations mcmc of None \<Rightarrow> default_iterations eng | Some n \<Rightarrow> n)
       (samplers mcmc) w"
proof -
  have c: "run_iterations (pints_samplers eng) eng t n s v = run_iterations (pints eng) eng t n s v"
    for t n s and v :: "('a, 'b) world_scheme"
    by (rule run_iterations_cong) (simp add: pints_fields)
  have "run_samplers (pints_samplers eng) eng t n ss v = run_samplers (pints eng) eng t n ss v"
    for t n ss and v :: "('a, 'b) world_scheme"
    by (induction ss arbitrary: v) (simp_all add: c split: prod.splits sum.splits)
  then show ?thesis by (simp add: pints_def spec_controller_run_def)
qed

lemma spec_mh_tell_step:
  assumes "proposed b = Some x" "current b \<noteq> None"
  shows "\<exists>y b' g'. spec_mh_tell eng b fx w = (Inr (Some y), b', w\<lparr>np_random := g'\<rparr>)
          \<and> g' = snd (np_uniform eng (np_random w))
          \<and> current b' = Some y \<and> iterations b' = Suc (iterations b)"
  using assms
  by (cases "np_uniform eng (np_random w)")
     (auto simp add: spec_mh_tell_def Let_def split: option.splits)

lemma tell_pints_step:
  assumes "current (base self) \<noteq> None"
  shows "\<exists>y self' w'. tell (pints eng) (ask self x) fx w = (Inr (Some y), self', w')
          \<and> current (base self') = Some y
          \<and> iterations (base self') = Suc (iterations (base self))
          \<and> error_freq self' = error_freq self"
proof (cases "fst (tell_test (ask self x) w)")
  case Normal
  then have t: "tell_test (ask self x) w = (Normal, snd (tell_test (ask self x) w))"
    by (metis prod.collapse)
  have p: "proposed (base (ask self x)) = Some x" "current (base (ask self x)) \<noteq> None"
    using assms by (simp_all add: ask_def)
  let ?w = "snd (tell_test (ask self x) w)"
  from spec_mh_tell_step [OF p, of eng fx ?w]
  obtain y b' g' where
    m: "spec_mh_tell eng (base (ask self x)) fx ?w = (Inr (Some y), b', ?w\<lparr>np_random := g'\<rparr>)"
    and c: "current b' = Some y"
    and i: "iterations b' = Suc (iterations (base (ask self x)))"
    by blast
  have "tell (pints eng) (ask self x) fx w =
      (Inr (Some y), (ask self x)\<lparr>base := b'\<rparr>, ?w\<lparr>np_random := g'\<rparr>)"
    unfolding tell_Normal [OF t] delegate_def pints_fields m by simp
  moreover have "iterations b' = Suc (iterations (base self))" using i by (simp add: ask_def)
  moreover have "error_freq ((ask self x)\<lparr>base := b'\<rparr>) = error_freq self" by (simp add: ask_def)
  ultimately show ?thesis using c by simp
next
  case Fault
  then have t: "tell_test (ask self x) w = (Fault, snd (tell_test (ask self x) w))"
    by (metis prod.collapse)
  have "tell (pints eng) (ask self x) fx w =
      (fst (force_accept (ask self x) fx), snd (force_accept (ask self x) fx),
       snd (tell_test (ask self x) w))"
    by (rule tell_Fault [OF t])
  moreover have "fst (force_accept (ask self x) fx) = Inr (Some x)"
    and "current (base (snd (force_accept (ask self x) fx))) = Some x"
    by (simp_all add: force_accept_eq ask_def)
  ultimately show ?thesis by (simp add: force_accept_ask)
qed

lemma run_iterations_pints:
  assumes "current (base self) \<noteq> None"
  shows "\<exists>chain self' w'. run_iterations (pints eng) eng target n self w = (Inr chain, self', w')
          \<and> length chain = n
          \<and> iterations (base self') = iterations (base self) + n
          \<and> error_freq self' = error_freq self
          \<and> current (base self') \<noteq> None"
  using assms
proof (induction n arbitrary: self w)
  case 0
  then show ?case by simp
next
  case (Suc n)
  obtain x g' where pr: "propose eng (current (base self)) (np_random w) = (x, g')"
    by (cases "propose eng (current (base self)) (np_random w)")
  from tell_pints_step [OF Suc.prems, of eng x "log_density eng target x" "w\<lparr>np_random := g'\<rparr>"]
  obtain y s1 w1 where
    t: "tell (pints eng) (ask self x) (log_density eng target x) (w\<lparr>np_random := g'\<rparr>) = (Inr (Some y), s1, w1)"
    and c: "current (base s1) = Some y"
    and i: "iterations (base s1) = Suc (iterations (base self))"
    and e: "error_freq s1 = error_freq self"
    by blast
  from c have "current (base s1) \<noteq> None" by simp
  from Suc.IH [OF this, of w1] obtain chain s2 w2 where
    r: "run_iterations (pints eng) eng target n s1 w1 = (Inr chain, s2, w2)"
    and l: "length chain = n"
    and i2: "iterations (base s2) = iterations (base s1) + n"
    and e2: "error_freq s2 = error_freq s1"
    and c2: "current (base s2) \<noteq> None"
    by blast
  have "run_iterations (pints eng) eng target (Suc n) self w = (Inr (y # chain), s2, w2)"
    by (simp add: pr t r)
  with l i i2 e e2 c2 show ?case by simp
qed

lemma kl_divergence_returns:
  assumes "sigma self \<noteq> 0"
  shows "\<exists>kld. kl_divergence self samples = Inr kld"
  using assms by (simp add: kl_divergence_def)

lemma pints_run_body:
  fixes w :: "('g, 'm) world_scheme" and ext :: "(unit, 'g, 'm) extern"
  assumes ext: "ext = pints eng" and sg: "sigma target \<noteq> 0"
  shows "\<exists>chain self' w' kld.
           run_iterations ext eng target 1000
             \<lparr>base = \<lparr>current = Some x, current_log_pdf = None, proposed = None,
                      iterations = 0, acceptance = 0\<rparr>,
              error_freq = (if sb \<le> run then e else 0)\<rparr> w = (Inr chain, self', w')
         \<and> controller_run ext (configure ext target [x] sb e run) w = (Inr [chain], w')
         \<and> length chain = 1000
         \<and> iterations (base self') = 1000
         \<and> error_freq self' = (if sb \<le> run then e else 0)
         \<and> kl_divergence target chain = Inr kld
         \<and> get_klds_body ext target [x] sb e run w = (Inr kld, w')"
proof -
  let ?s0 = "\<lparr>base = \<lparr>current = Some x, current_log_pdf = None, proposed = None,
                             iterations = 0, acceptance = 0\<rparr>,
                    error_freq = (if sb \<le> run then e else 0)\<rparr> :: unit broken_mh"
  have c: "configure ext target [x] sb e run =
      \<lparr>log_pdf = target, samplers = [?s0], max_iterations = Some 1000, log_to_screen = Some False\<rparr>"
    by (simp add: configure_eq ext pints_fields spec_mh_init_def)
  have "current (base ?s0) \<noteq> None" by simp
  from run_iterations_pints [OF this, of eng target 1000 w] obtain chain self' w' where
    r: "run_iterations ext eng target 1000 ?s0 w = (Inr chain, self', w')"
    and l: "length chain = 1000"
    and i: "iterations (base self') = iterations (base ?s0) + 1000"
    and e: "error_freq self' = error_freq ?s0"
    unfolding ext by blast
  have cr: "controller_run ext (configure ext target [x] sb e run) w = (Inr [chain], w')"
    unfolding c using r by (simp add: ext pints_controller_run)
  from kl_divergence_returns [OF sg, of chain] obtain kld where
    k: "kl_divergence target chain = Inr kld" by blast
  have b: "get_klds_body ext target [x] sb e run w = (Inr kld, w')"
    by (simp add: get_klds_body_def cr k)
  from r cr l i e k b show ?thesis by auto
qed

subsection \<open>Helper facts about states that agree on the generators\<close>

lemma tell_test_same:
  assumes "same_generators w1 w2"
  shows "fst (tell_test self w1) = fst (tell_test self w2)
       \<and> same_generators (snd (tell_test self w1)) (snd (tell_test self w2))"
  using assms by (simp add: tell_test_def random_random_def same_generators_def)

lemma spec_mh_tell_same:
  assumes "same_generators w1 w2"
  shows "fst (spec_mh_tell eng b fx w1) = fst (spec_mh_tell eng b fx w2)
       \<and> fst (snd (spec_mh_tell eng b fx w1)) = fst (snd (spec_mh_tell eng b fx w2))
       \<and> same_generators (snd (snd (spec_mh_tell eng b fx w1))) (snd (snd (spec_mh_tell eng b fx w2)))"
  using assms
  by (cases "np_uniform eng (np_random w2)")
     (simp add: spec_mh_tell_def same_generators_def Let_def)

lemma tell_pints_same:
  fixes w1 w2 :: "('g, 'm) world_scheme"
  assumes "same_generators w1 w2"
  shows "fst (tell (pints eng) self fx w1) = fst (tell (pints eng) self fx w2)
       \<and> fst (snd (tell (pints eng) self fx w1)) = fst (snd (tell (pints eng) self fx w2))
       \<and> same_generators (snd (snd (tell (pints eng) self fx w1)))
            (snd (snd (tell (pints eng) self fx w2)))"
proof -
  let ?v1 = "snd (tell_test self w1)" and ?v2 = "snd (tell_test self w2)"
  from tell_test_same [OF assms, of self]
  have b: "fst (tell_test self w1) = fst (tell_test self w2)" and s: "same_generators ?v1 ?v2"
    by simp_all
  show ?thesis
  proof (cases "fst (tell_test self w2)")
    case Normal
    with b have t: "tell_test self w1 = (Normal, ?v1)" "tell_test self w2 = (Normal, ?v2)"
      by (simp_all add: prod_eq_iff)
    let ?m1 = "spec_mh_tell eng (base self) fx ?v1" and ?m2 = "spec_mh_tell eng (base self) fx ?v2"
    from spec_mh_tell_same [OF s, of eng "base self" fx]
    have m: "fst ?m1 = fst ?m2" "fst (snd ?m1) = fst (snd ?m2)"
      "same_generators (snd (snd ?m1)) (snd (snd ?m2))"
      by simp_all
    have d: "delegate (pints eng) self fx v =
        (fst (spec_mh_tell eng (base self) fx v),
         self\<lparr>base := fst (snd (spec_mh_tell eng (base self) fx v))\<rparr>,
         snd (snd (spec_mh_tell eng (base self) fx v)))" for v :: "('g, 'm) world_scheme"
      by (simp add: delegate_def pints_fields split: prod.splits)
    show ?thesis
      unfolding tell_Normal [OF t(1)] tell_Normal [OF t(2)] d using m by simp
  next
    case Fault
    with b have t: "tell_test self w1 = (Fault, ?v1)" "tell_test self w2 = (Fault, ?v2)"
      by (simp_all add: prod_eq_iff)
    show ?thesis using s
      by (simp add: tell_Fault [OF t(1)] tell_Fault [OF t(2)])
  qed
qed

lemma run_iterations_same:
  fixes w1 w2 :: "('g, 'm) world_scheme"
  assumes "same_generators w1 w2"
  shows "fst (run_iterations (pints eng) eng target n self w1) =
         fst (run_iterations (pints eng) eng target n self w2)
       \<and> fst (snd (run_iterations (pints eng) eng target n self w1)) =
         fst (snd (run_iterations (pints eng) eng target n self w2))
       \<and> same_generators (snd (snd (run_iterations (pints eng) eng target n self w1)))
            (snd (snd (run_iterations (pints eng) eng target n self w2)))"
  using assms
proof (induction n arbitrary: self w1 w2)
  case 0
  then show ?case by simp
next
  case (Suc n)
  obtain x g' where p2: "propose eng (current (base self)) (np_random w2) = (x, g')"
    by (cases "propose eng (current (base self)) (np_random w2)")
  with Suc.prems have p1: "propose eng (current (base self)) (np_random w1) = (x, g')"
    by (simp add: same_generators_def)
  let ?fx = "log_density eng target x"
  let ?t1 = "tell (pints eng) (ask self x) ?fx (w1\<lparr>np_random := g'\<rparr>)"
  let ?t2 = "tell (pints eng) (ask self x) ?fx (w2\<lparr>np_random := g'\<rparr>)"
  have "same_generators (w1\<lparr>np_random := g'\<rparr>) (w2\<lparr>np_random := g'\<rparr>)"
    using Suc.prems by (simp add: same_generators_def)
  from tell_pints_same [OF this, of eng "ask self x" ?fx]
  have a: "fst ?t1 = fst ?t2" and b: "fst (snd ?t1) = fst (snd ?t2)"
    and c: "same_generators (snd (snd ?t1)) (snd (snd ?t2))"
    by simp_all
  obtain r s v1 where t1: "?t1 = (r, s, v1)" by (cases ?t1)
  with a b obtain v2 where t2: "?t2 = (r, s, v2)" by (cases ?t2) auto
  from c t1 t2 have sg: "same_generators v1 v2" by simp
  note ih = Suc.IH [OF sg, of s]
  show ?case
  proof (cases r)
    case (Inl err)
    then show ?thesis using sg by (simp add: p1 p2 t1 t2)
  next
    case (Inr y)
    show ?thesis
    proof (cases y)
      case None
      then show ?thesis using sg Inr by (simp add: p1 p2 t1 t2)
    next
      case (Some v)
      obtain q1 s1 u1 where r1: "run_iterations (pints eng) eng target n s v1 = (q1, s1, u1)"
        by (cases "run_iterations (pints eng) eng target n s v1")
      with ih obtain u2 where r2: "run_iterations (pints eng) eng target n s v2 = (q1, s1, u2)"
        and su: "same_generators u1 u2"
        by (cases "run_iterations (pints eng) eng target n s v2") auto
      show ?thesis using su
        by (simp add: p1 p2 t1 t2 Inr Some r1 r2 split: sum.splits)
    qed
  qed
qed

lemma run_samplers_same:
  fixes w1 w2 :: "('g, 'm) world_scheme"
  assumes "same_generators w1 w2"
  shows "fst (run_samplers (pints eng) eng target n ss w1) =
         fst (run_samplers (pints eng) eng target n ss w2)
       \<and> same_generators (snd (run_samplers (pints eng) eng target n ss w1))
            (snd (run_samplers (pints eng) eng target n ss w2))"
  using assms
proof (induction ss arbitrary: w1 w2)
  case Nil
  then show ?case by simp
next
  case (Cons s ss)
  obtain q s' v1 where r1: "run_iterations (pints eng) eng target n s w1 = (q, s', v1)"
    by (cases "run_iterations (pints eng) eng target n s w1")
  with run_iterations_same [OF Cons.prems, of eng target n s]
  obtain v2 where r2: "run_iterations (pints eng) eng target n s w2 = (q, s', v2)"
    and sv: "same_generators v1 v2"
    by (cases "run_iterations (pints eng) eng target n s w2") auto
  obtain c1 u1 where s1: "run_samplers (pints eng) eng target n ss v1 = (c1, u1)"
    by (cases "run_samplers (pints eng) eng target n ss v1")
  with Cons.IH [OF sv] obtain u2 where s2: "run_samplers (pints eng) eng target n ss v2 = (c1, u2)"
    and su: "same_generators u1 u2"
    by (cases "run_samplers (pints eng) eng target n ss v2") auto
  show ?case using sv su
    by (simp add: r1 r2 s1 s2 split: sum.splits)
qed

lemma controller_run_same:
  fixes w1 w2 :: "('g, 'm) world_scheme"
  assumes "same_generators w1 w2"
  shows "fst (controller_run (pints eng) mcmc w1) = fst (controller_run (pints eng) mcmc w2)
       \<and> same_generators (snd (controller_run (pints eng) mcmc w1))
            (snd (controller_run (pints eng) mcmc w2))"
  unfolding pints_controller_run using assms by (rule run_samplers_same)

lemma get_klds_body_same:
  fixes w1 w2 :: "('g, 'm) world_scheme" and ext :: "(unit, 'g, 'm) extern"
  assumes ext: "ext = pints eng" and "same_generators w1 w2"
  shows "fst (get_klds_body ext target xs sb e run w1) =
         fst (get_klds_body ext target xs sb e run w2)
       \<and> same_generators (snd (get_klds_body ext target xs sb e run w1))
            (snd (get_klds_body ext target xs sb e run w2))"
proof -
  let ?r1 = "controller_run ext (configure ext target xs sb e run) w1"
  let ?r2 = "controller_run ext (configure ext target xs sb e run) w2"
  from controller_run_same [OF assms(2), of eng "configure ext target xs sb e run"]
  have a: "fst ?r1 = fst ?r2" and b: "same_generators (snd ?r1) (snd ?r2)"
    unfolding ext by simp_all
  obtain q v1 where r1: "?r1 = (q, v1)" by (cases ?r1)
  with a obtain v2 where r2: "?r2 = (q, v2)" by (cases ?r2) auto
  from b r1 r2 have "same_generators v1 v2" by simp
  then show ?thesis
    by (simp add: get_klds_body_def r1 r2 split: sum.splits list.splits)
qed

lemma get_klds_loop_same:
  fixes w1 w2 :: "('g, 'm) world_scheme" and ext :: "(unit, 'g, 'm) extern"
  assumes ext: "ext = pints eng" and "same_generators w1 w2"
  shows "fst (get_klds_loop ext target xs sb e runs klds w1) =
         fst (get_klds_loop ext target xs sb e runs klds w2)
       \<and> same_generators (snd (get_klds_loop ext target xs sb e runs klds w1))
            (snd (get_klds_loop ext target xs sb e runs klds w2))"
  using assms(2)
proof (induction runs arbitrary: klds w1 w2)
  case Nil
  then show ?case by simp
next
  case (Cons run runs)
  obtain q v1 where b1: "get_klds_body ext target xs sb e run w1 = (q, v1)"
    by (cases "get_klds_body ext target xs sb e run w1")
  with get_klds_body_same [OF ext Cons.prems, of target xs sb e run]
  obtain v2 where b2: "get_klds_body ext target xs sb e run w2 = (q, v2)"
    and sv: "same_generators v1 v2"
    by (cases "get_klds_body ext target xs sb e run w2") auto
  show ?case
  proof (cases q)
    case (Inl err)
    then show ?thesis using sv by (simp add: b1 b2)
  next
    case (Inr kld)
    from Cons.IH [OF sv, of "klds @ [kld]"] show ?thesis by (simp add: b1 b2 Inr)
  qed
qed

lemma seeded_same:
  "same_generators (np_random_seed ext k' (random_seed ext k w1))
                   (np_random_seed ext k' (random_seed ext k w2))"
  by (simp add: same_generators_def np_random_seed_def random_seed_def)

subsection \<open>The driver\<close>

text \<open>
  Claim C4. Let the library be the one the specification describes and the target be
  non-singular. Then \<^verbatim>\<open>get_klds\<close> returns a list of exactly \<open>num_runs\<close> divergences, in
  run order. For each run index \<open>r\<close> the controller that is run holds one fresh
  sampler: iteration count 0, acceptance rate 0, the start point 1.0 as its current
  sample, and error frequency \<open>error_freq\<close> if \<open>r \<ge> start_breaking\<close>, 0 otherwise. The
  run of that sampler, from the generators as the previous run left them, performs
  exactly 1000 iterations: the chain has 1000 samples, the sampler's iteration count
  ends at 1000 and its error frequency is unchanged. Entry \<open>r\<close> of the result is the
  divergence of that chain from the fixed target.
\<close>

theorem get_klds_runs:
  fixes w :: "('g, 'm) world_scheme" and ext :: "(unit, 'g, 'm) extern"
  assumes "ext = pints eng" and "sigma (posterior ext) \<noteq> 0"
  shows "\<exists>klds.
           get_klds ext num_runs sb e w = (Inr klds, world_at ext sb e w (nat num_runs))
         \<and> length klds = nat num_runs
         \<and> (\<forall>r<nat num_runs.
               configure ext (posterior ext) x0 sb e (int r) =
                 \<lparr>log_pdf = posterior ext,
                  samplers = [\<lparr>base = \<lparr>current = Some 1, current_log_pdf = None,
                                       proposed = None, iterations = 0, acceptance = 0\<rparr>,
                               error_freq = (if sb \<le> int r then e else 0)\<rparr>],
                  max_iterations = Some 1000,
                  log_to_screen = Some False\<rparr>
             \<and> (\<exists>chain self'.
                   run_iterations ext eng (posterior ext) 1000
                       \<lparr>base = \<lparr>current = Some 1, current_log_pdf = None,
                                proposed = None, iterations = 0, acceptance = 0\<rparr>,
                        error_freq = (if sb \<le> int r then e else 0)\<rparr>
                       (world_at ext sb e w r) =
                     (Inr chain, self', world_at ext sb e w (Suc r))
                 \<and> controller_run ext (configure ext (posterior ext) x0 sb e (int r))
                       (world_at ext sb e w r) =
                     (Inr [chain], world_at ext sb e w (Suc r))
                 \<and> length chain = 1000
                 \<and> iterations (base self') = 1000
                 \<and> error_freq self' = (if sb \<le> int r then e else 0)
                 \<and> kl_divergence (posterior ext) chain = Inr (klds ! r)))"
proof -
  let ?body = "\<lambda>r. get_klds_body ext (posterior ext) x0 sb e (int r) (world_at ext sb e w r)"
  have ok: "\<exists>kld. fst (?body r) = Inr kld" for r
    using pints_run_body [OF assms, of 1 sb "int r" e "world_at ext sb e w r"]
    by (auto simp add: x0_def)
  then have "\<forall>r<nat num_runs. \<exists>kld. fst (?body r) = Inr kld" by blast
  from get_klds_loop_upto [OF this] obtain klds where
    l: "get_klds_loop ext (posterior ext) x0 sb e (map int [0..<nat num_runs]) [] w =
          (Inr klds, world_at ext sb e w (nat num_runs))"
    and n: "length klds = nat num_runs"
    and v: "\<forall>r<nat num_runs. fst (?body r) = Inr (klds ! r)"
    by blast
  have g: "get_klds ext num_runs sb e w = (Inr klds, world_at ext sb e w (nat num_runs))"
    using l by (simp add: get_klds_def range_py_def)
  have c: "configure ext (posterior ext) x0 sb e (int r) =
                 \<lparr>log_pdf = posterior ext,
                  samplers = [\<lparr>base = \<lparr>current = Some 1, current_log_pdf = None,
                                       proposed = None, iterations = 0, acceptance = 0\<rparr>,
                               error_freq = (if sb \<le> int r then e else 0)\<rparr>],
                  max_iterations = Some 1000,
                  log_to_screen = Some False\<rparr>" for r
    by (simp add: x0_def configure_eq assms(1) pints_fields spec_mh_init_def)
  have r: "\<exists>chain self'.
                   run_iterations ext eng (posterior ext) 1000
                       \<lparr>base = \<lparr>current = Some 1, current_log_pdf = None,
                                proposed = None, iterations = 0, acceptance = 0\<rparr>,
                        error_freq = (if sb \<le> int r then e else 0)\<rparr>
                       (world_at ext sb e w r) =
                     (Inr chain, self', world_at ext sb e w (Suc r))
                 \<and> controller_run ext (configure ext (posterior ext) x0 sb e (int r))
                       (world_at ext sb e w r) =
                     (Inr [chain], world_at ext sb e w (Suc r))
                 \<and> length chain = 1000
                 \<and> iterations (base self') = 1000
                 \<and> error_freq self' = (if sb \<le> int r then e else 0)
                 \<and> kl_divergence (posterior ext) chain = Inr (klds ! r)"
    if "r < nat num_runs" for r
  proof -
    from pints_run_body [OF assms, of 1 sb "int r" e "world_at ext sb e w r"]
    obtain chain self' w' kld where
      a: "run_iterations ext eng (posterior ext) 1000
            \<lparr>base = \<lparr>current = Some 1, current_log_pdf = None,
                     proposed = None, iterations = 0, acceptance = 0\<rparr>,
             error_freq = (if sb \<le> int r then e else 0)\<rparr>
            (world_at ext sb e w r) = (Inr chain, self', w')"
      and b: "controller_run ext (configure ext (posterior ext) [1] sb e (int r))
            (world_at ext sb e w r) = (Inr [chain], w')"
      and d: "length chain = 1000" "iterations (base self') = 1000"
             "error_freq self' = (if sb \<le> int r then e else 0)"
      and k: "kl_divergence (posterior ext) chain = Inr kld"
      and y: "get_klds_body ext (posterior ext) [1] sb e (int r) (world_at ext sb e w r) = (Inr kld, w')"
      by blast
    from y have w': "world_at ext sb e w (Suc r) = w'" by (simp add: x0_def)
    from v that have "fst (get_klds_body ext (posterior ext) x0 sb e (int r) (world_at ext sb e w r))
        = Inr (klds ! r)" by blast
    with y have "klds ! r = kld" by (simp add: x0_def)
    with a b d k w' show ?thesis by (auto simp add: x0_def)
  qed
  show ?thesis
  proof (intro exI [of _ klds] conjI allI impI)
    show "get_klds ext num_runs sb e w = (Inr klds, world_at ext sb e w (nat num_runs))" by (rule g)
    show "length klds = nat num_runs" by (rule n)
  qed (use c r in blast)+
qed

theorem get_klds_runs_witness:
  "sigma (posterior (pints demo_engine :: (unit, rng, unit) extern)) \<noteq> 0
   \<and> (\<exists>klds.
         get_klds (pints demo_engine) 3 1 (1 / 2) demo_world =
           (Inr klds, world_at (pints demo_engine) 1 (1 / 2) demo_world 3)
       \<and> length klds = 3
       \<and> (\<exists>chain.
             controller_run (pints demo_engine)
                 (configure (pints demo_engine :: (unit, rng, unit) extern)
                    (posterior (pints demo_engine :: (unit, rng, unit) extern)) x0 1 (1 / 2) 2)
                 (world_at (pints demo_engine) 1 (1 / 2) demo_world 2) =
               (Inr [chain], world_at (pints demo_engine) 1 (1 / 2) demo_world 3)
           \<and> length chain = 1000
           \<and> kl_divergence (posterior (pints demo_engine :: (unit, rng, unit) extern)) chain
               = Inr (klds ! 2)))"
proof -
  let ?ext = "pints demo_engine :: (unit, rng, unit) extern"
  have s: "sigma (posterior ?ext) \<noteq> 0"
    by (simp add: posterior_def pints_fields demo_engine_def)
  from get_klds_runs [OF refl s, of 3 1 "1 / 2" demo_world] obtain klds where
    g: "get_klds ?ext 3 1 (1 / 2) demo_world = (Inr klds, world_at ?ext 1 (1 / 2) demo_world (nat 3))"
    and n: "length klds = nat 3"
    and r: "\<And>r. r < nat 3 \<Longrightarrow> \<exists>chain self'.
          run_iterations ?ext demo_engine (posterior ?ext) 1000
             \<lparr>base = \<lparr>current = Some 1, current_log_pdf = None,
                      proposed = None, iterations = 0, acceptance = 0\<rparr>,
              error_freq = (if 1 \<le> int r then 1 / 2 else 0)\<rparr>
             (world_at ?ext 1 (1 / 2) demo_world r) =
            (Inr chain, self', world_at ?ext 1 (1 / 2) demo_world (Suc r))
          \<and> controller_run ?ext (configure ?ext (posterior ?ext) x0 1 (1 / 2) (int r))
              (world_at ?ext 1 (1 / 2) demo_world r) =
            (Inr [chain], world_at ?ext 1 (1 / 2) demo_world (Suc r))
          \<and> length chain = 1000
          \<and> iterations (base self') = 1000
          \<and> error_freq self' = (if 1 \<le> int r then 1 / 2 else 0)
          \<and> kl_divergence (posterior ?ext) chain = Inr (klds ! r)"
    by blast
  have "(2::nat) < nat 3" by simp
  from r [OF this] obtain chain where
    c: "controller_run ?ext (configure ?ext (posterior ?ext) x0 1 (1 / 2) (int 2))
              (world_at ?ext 1 (1 / 2) demo_world 2) =
            (Inr [chain], world_at ?ext 1 (1 / 2) demo_world (Suc 2))"
    and l: "length chain = 1000"
    and k: "kl_divergence (posterior ?ext) chain = Inr (klds ! 2)"
    by blast
  have e: "Suc 2 = 3" "nat 3 = 3" by simp_all
  show ?thesis
  proof (intro conjI exI [of _ klds] exI [of _ chain])
    show "sigma (posterior ?ext) \<noteq> 0" by (rule s)
    show "get_klds ?ext 3 1 (1 / 2) demo_world = (Inr klds, world_at ?ext 1 (1 / 2) demo_world 3)"
      using g unfolding e .
    show "length klds = 3" using n by simp
    show "controller_run ?ext (configure ?ext (posterior ?ext) x0 1 (1 / 2) 2)
              (world_at ?ext 1 (1 / 2) demo_world 2) =
            (Inr [chain], world_at ?ext 1 (1 / 2) demo_world 3)"
      using c unfolding e by simp
    show "length chain = 1000" by (rule l)
    show "kl_divergence (posterior ?ext) chain = Inr (klds ! 2)" by (rule k)
  qed
qed

text \<open>
  Claim C5. When \<open>start_breaking\<close> is at or beyond \<open>num_runs\<close>, no run index reaches it, no
  sampler gets a nonzero error frequency, and \<^verbatim>\<open>get_klds\<close> computes from the same
  generators the same result as with error frequency 0; in particular
  \<^verbatim>\<open>get_klds(10, 10, 0.5)\<close> and \<^verbatim>\<open>get_klds(10, 10, 0)\<close> agree.
\<close>

theorem get_klds_unbroken:
  assumes "num_runs \<le> start_breaking"
  shows "get_klds ext num_runs start_breaking e w = get_klds ext num_runs start_breaking 0 w"
proof -
  have "\<forall>run \<in> set (range_py num_runs). run < start_breaking"
    using assms by (auto simp add: range_py_def)
  then show ?thesis unfolding get_klds_def by (rule get_klds_loop_unbroken)
qed

theorem get_klds_unbroken_witness:
  "(10 :: int) \<le> 10
   \<and> get_klds demo_ext 10 10 (1 / 2) demo_world = get_klds demo_ext 10 10 0 demo_world"
  using get_klds_unbroken [of 10 10 demo_ext "1 / 2" demo_world] by simp

text \<open>
  Claim C9. Take two executions of \<^verbatim>\<open>get_klds\<close> with the same arguments, each started
  after both generators were seeded with the same seeds, from states of the process
  that may differ in everything: the generators before the seeding and whatever else
  the process holds. With the library of the specification they return the same
  divergences (or raise the same exception) and leave both generators in the same
  state; so do two executions of the experiment cell. Neither the notebook's code
  nor the library, whose kernel and uniform draw read numpy's generator only,
  consults anything but the two generators.
\<close>

theorem get_klds_deterministic_given_seed:
  fixes w1 w2 :: "('g, 'm) world_scheme"
  shows "fst (get_klds (pints eng) num_runs start_breaking e
               (np_random_seed (pints eng) k' (random_seed (pints eng) k w1))) =
         fst (get_klds (pints eng) num_runs start_breaking e
               (np_random_seed (pints eng) k' (random_seed (pints eng) k w2)))
       \<and> same_generators
           (snd (get_klds (pints eng) num_runs start_breaking e
                  (np_random_seed (pints eng) k' (random_seed (pints eng) k w1))))
           (snd (get_klds (pints eng) num_runs start_breaking e
                  (np_random_seed (pints eng) k' (random_seed (pints eng) k w2))))
       \<and> fst (experiment_cell (pints eng) w1) = fst (experiment_cell (pints eng) w2)"
proof -
  have s: "same_generators (np_random_seed (pints eng) j' (random_seed (pints eng) j w1))
             (np_random_seed (pints eng) j' (random_seed (pints eng) j w2))" for j j'
    by (rule seeded_same)
  show ?thesis
    unfolding get_klds_def experiment_cell_def
    using get_klds_loop_same [OF refl s] by blast
qed

end
